theory Spec2Isabelle
  imports Main "HOL-Library.Sublist"
begin

section \<open>Data model\<close>

text \<open>
  Modelled from the spec: the enumeration \<open>Quality\<close> is declared in the package index,
  which is not among the sources; the spec (section 3) gives it as the closed
  enumeration Stable, Dev, Canary, Custom, Unknown.
\<close>

datatype Quality = Stable | Dev | Canary | Custom | Unknown

text \<open>\<open>IExecutable\<close>: one browser binary, \<open>{ path, quality }\<close>.\<close>

record IExecutable =
  path :: string
  exe_quality :: Quality

text \<open>
  Everything the finder can throw or reject with. \<open>SyntaxError\<close> is what
  \<open>new RegExp\<close> throws on a malformed pattern; \<open>CommandFailed\<close> is the rejection of
  \<open>execa.command\<close> (non-zero exit, missing binary, I/O error), carrying its message.
  \<open>OutsideFragment\<close> is not a behaviour of the program: it marks a pattern that uses
  regular-expression syntax this development does not model (groups, alternation,
  classes, braces, lazy quantifiers, letter escapes), about which nothing is stated.
\<close>

datatype error = SyntaxError | OutsideFragment | CommandFailed string

section \<open>The regular expressions the finder builds\<close>

text \<open>
  The finder builds its rules with \<open>new RegExp(source)\<close> and applies them with
  \<open>regex.test(path)\<close> (in \<open>sort\<close>) and \<open>line.replace(pathSuffixRe, "")\<close>. The patterns
  it builds are flat: literal characters, escaped characters, \<open>.\<close>, the assertions
  \<open>^\<close> and \<open>$\<close>, and an atom followed by one of \<open>*\<close>, \<open>+\<close>, \<open>?\<close>; the literal
  \<open>pathSuffixRe\<close> adds a character class. A compiled pattern is a list of pieces.
  Strings are lists of 8-bit characters.
\<close>

datatype atom = Lit char | AnyChar | OneOf "char list"

datatype piece = Bol | Eol | One atom | Opt atom | Star atom | Plus atom

type_synonym regex = "piece list"

text \<open>\<open>.\<close> matches every character but a line terminator (no \<open>s\<close> flag is ever set).\<close>

fun atom_ok :: "atom \<Rightarrow> char \<Rightarrow> bool" where
  "atom_ok (Lit c) x = (x = c)"
| "atom_ok AnyChar x = (x \<noteq> CHR 0x0A \<and> x \<noteq> CHR 0x0D)"
| "atom_ok (OneOf cs) x = (x \<in> set cs)"

text \<open>
  \<open>match_here ps b s\<close>: the backtracking matcher started at the current position, where
  \<open>s\<close> is the rest of the input and \<open>b\<close> says that the position is the start of the
  input. Quantifiers are greedy: they take a character first and give it back when the
  rest fails. The result is the input left after the first match found, or \<open>None\<close>.
\<close>

fun match_here :: "regex \<Rightarrow> bool \<Rightarrow> string \<Rightarrow> string option" where
  "match_here [] b s = Some s"
| "match_here (Bol # ps) b s = (if b then match_here ps b s else None)"
| "match_here (Eol # ps) b s = (if s = [] then match_here ps b s else None)"
| "match_here (One a # ps) b [] = None"
| "match_here (One a # ps) b (c # cs) =
     (if atom_ok a c then match_here ps False cs else None)"
| "match_here (Opt a # ps) b [] = match_here ps b []"
| "match_here (Opt a # ps) b (c # cs) =
     (if atom_ok a c
      then (case match_here ps False cs of
              Some r \<Rightarrow> Some r
            | None \<Rightarrow> match_here ps b (c # cs))
      else match_here ps b (c # cs))"
| "match_here (Star a # ps) b [] = match_here ps b []"
| "match_here (Star a # ps) b (c # cs) =
     (if atom_ok a c
      then (case match_here (Star a # ps) False cs of
              Some r \<Rightarrow> Some r
            | None \<Rightarrow> match_here ps b (c # cs))
      else match_here ps b (c # cs))"
| "match_here (Plus a # ps) b [] = None"
| "match_here (Plus a # ps) b (c # cs) =
     (if atom_ok a c then match_here (Star a # ps) False cs else None)"

text \<open>
  \<open>regex.test(s)\<close> for a pattern without the \<open>g\<close> and \<open>y\<close> flags: the match is tried
  at every start position from the left, the end of the input included.
\<close>

fun test_from :: "regex \<Rightarrow> bool \<Rightarrow> string \<Rightarrow> bool" where
  "test_from re b [] = (match_here re b [] \<noteq> None)"
| "test_from re b (c # cs) =
     (if match_here re b (c # cs) \<noteq> None then True else test_from re False cs)"

definition test :: "regex \<Rightarrow> string \<Rightarrow> bool" where
  "test re s = test_from re True s"

text \<open>
  \<open>s.replace(re, "")\<close> for a pattern without the \<open>g\<close> flag: the leftmost match is
  removed, and a string without a match is returned as it is.
\<close>

fun replace_from :: "regex \<Rightarrow> bool \<Rightarrow> string \<Rightarrow> string" where
  "replace_from re b [] = (case match_here re b [] of Some r \<Rightarrow> r | None \<Rightarrow> [])"
| "replace_from re b (c # cs) =
     (case match_here re b (c # cs) of
        Some r \<Rightarrow> r
      | None \<Rightarrow> c # replace_from re False cs)"

definition replace_empty :: "string \<Rightarrow> regex \<Rightarrow> string" where
  "replace_empty s re = replace_from re True s"

subsection \<open>\<open>new RegExp(source)\<close>\<close>

definition backslash :: char where
  "backslash = CHR 0x5C"

text \<open>The syntax characters of the pattern grammar: \<open>^ $ \ . * + ? ( ) [ ] { } |\<close>.\<close>

definition syntaxChars :: "char list" where
  "syntaxChars = ''^$'' @ [backslash] @ ''.*+?()[]{}|''"

datatype quant = QStar | QPlus | QOpt

datatype token = TBol | TEol | TAtom atom | TQuant quant

fun cons_ok :: "'a \<Rightarrow> error + 'a list \<Rightarrow> error + 'a list" where
  "cons_ok x (Inl e) = Inl e"
| "cons_ok x (Inr xs) = Inr (x # xs)"

text \<open>
  The scanner. A backslash before a syntax character or \<open>/\<close> is an identity escape; a
  backslash at the end of the pattern is a syntax error. An unescaped \<open>( ) [ ] { } |\<close>
  and every other escape leave the fragment.
\<close>

fun scan :: "string \<Rightarrow> error + token list" where
  "scan [] = Inr []"
| "scan (c # cs) =
     (if c = backslash then
        (case cs of
           [] \<Rightarrow> Inl SyntaxError
         | d # ds \<Rightarrow>
             if d \<in> set syntaxChars \<or> d = CHR ''/''
             then cons_ok (TAtom (Lit d)) (scan ds)
             else Inl OutsideFragment)
      else if c = CHR ''^'' then cons_ok TBol (scan cs)
      else if c = CHR ''$'' then cons_ok TEol (scan cs)
      else if c = CHR ''.'' then cons_ok (TAtom AnyChar) (scan cs)
      else if c = CHR ''*'' then cons_ok (TQuant QStar) (scan cs)
      else if c = CHR ''+'' then cons_ok (TQuant QPlus) (scan cs)
      else if c = CHR ''?'' then cons_ok (TQuant QOpt) (scan cs)
      else if c \<in> set ''()[]{}|'' then Inl OutsideFragment
      else cons_ok (TAtom (Lit c)) (scan cs))"

fun quantify :: "quant \<Rightarrow> atom \<Rightarrow> piece" where
  "quantify QStar a = Star a"
| "quantify QPlus a = Plus a"
| "quantify QOpt a = Opt a"

text \<open>
  The grammar: a term is an assertion, or an atom with at most one quantifier. A
  quantifier with no atom before it (at the start, after an assertion, after another
  quantifier) is the syntax error "nothing to repeat"; a \<open>?\<close> after a quantifier makes
  it lazy, which leaves the fragment.
\<close>

fun pieces :: "token list \<Rightarrow> error + regex" where
  "pieces [] = Inr []"
| "pieces (TBol # ts) = cons_ok Bol (pieces ts)"
| "pieces (TEol # ts) = cons_ok Eol (pieces ts)"
| "pieces (TQuant q # ts) = Inl SyntaxError"
| "pieces (TAtom a # TQuant q # TQuant q' # ts) =
     (if q' = QOpt then Inl OutsideFragment else Inl SyntaxError)"
| "pieces (TAtom a # TQuant q # ts) = cons_ok (quantify q a) (pieces ts)"
| "pieces (TAtom a # ts) = cons_ok (One a) (pieces ts)"

definition RegExp :: "string \<Rightarrow> error + regex" where
  "RegExp source = (case scan source of Inl e \<Rightarrow> Inl e | Inr ts \<Rightarrow> pieces ts)"

subsection \<open>Escaping\<close>

text \<open>
  Modelled from the spec: \<open>escapeRegexSpecialChars\<close> is imported from the package's
  \<open>util\<close> module, which is not among the sources. The spec (sections 4.3 and 6) asks
  that the home directory and the override string be escaped so that none of their
  characters is interpretable as matcher syntax: every syntax character of the pattern
  grammar, and the path separator \<open>/\<close>, is preceded by a backslash; every other
  character is kept.
\<close>

definition regexChars :: "char list" where
  "regexChars = ''/'' @ [backslash] @ ''.?*()^${}|[]+''"

fun escapeRegexSpecialChars :: "string \<Rightarrow> string" where
  "escapeRegexSpecialChars [] = []"
| "escapeRegexSpecialChars (c # cs) =
     (if c \<in> set regexChars
      then backslash # c # escapeRegexSpecialChars cs
      else c # escapeRegexSpecialChars cs)"

section \<open>Priority rules\<close>

text \<open>
  The objects of the source share their field names: an executable is
  \<open>{ path, quality }\<close>, a variant is \<open>{ name, weight, quality }\<close> and a priority
  (\<open>IPriority\<close>) is \<open>{ regex, weight, quality }\<close>. Weights are JavaScript numbers; the
  spec makes them integers, and they are integers here.
\<close>

subsection \<open>Numbers\<close>

text \<open>
  A number of the runtime is an IEEE double. Every integer below \<open>2 ^ 53\<close> in
  magnitude is one; from there on the doubles lie \<open>2\<close> apart, then \<open>4\<close>, and so on,
  doubling with every power of two. \<open>spacing a\<close> is the distance between the doubles
  around the magnitude \<open>a\<close>.
\<close>

function spacing :: "int \<Rightarrow> int" where
  "spacing a = (if a < 2 ^ 53 then 1 else 2 * spacing (a div 2))"
  by pat_completeness auto
termination by (relation "measure nat") auto

declare spacing.simps [simp del]

text \<open>
  The double nearest to an integer; of two equally near, the one whose significand is
  even. The sign is kept.
\<close>

definition to_double :: "int \<Rightarrow> int" where
  "to_double n =
     (let a = \<bar>n\<bar>; u = spacing a; q = a div u; r = a mod u;
          q' = (if u < 2 * r \<or> (2 * r = u \<and> odd q) then q + 1 else q)
      in sgn n * (q' * u))"

text \<open>
  \<open>a + b\<close> and \<open>a - b\<close> on numbers that are integers: the exact result, rounded to
  a double. Adding 100 to a finite double, or subtracting it, gives a finite double, so
  that no infinity is modelled. The weight of a variant is a double itself; the
  definitions are total on the other integers all the same.
\<close>

definition number_add :: "int \<Rightarrow> int \<Rightarrow> int" where
  "number_add a b = to_double (a + b)"

definition number_sub :: "int \<Rightarrow> int \<Rightarrow> int" where
  "number_sub a b = to_double (a - b)"

subsection \<open>Rules\<close>

record ranked =
  weight :: int
  quality :: Quality

record VariantSpec = ranked +
  name :: string

record IPriority = ranked +
  regex :: regex

text \<open>\<open>process.env\<close>: a variable is a string or \<open>undefined\<close>.\<close>

type_synonym env = "string \<rightharpoonup> string"

text \<open>A template literal prints \<open>undefined\<close> as the text "undefined".\<close>

fun interpolate :: "string option \<Rightarrow> string" where
  "interpolate None = ''undefined''"
| "interpolate (Some s) = s"

text \<open>
  \<open>this.env.HOME && escapeRegexSpecialChars(this.env.HOME)\<close>: an unset and an empty
  \<open>HOME\<close> are falsy and are the value of the expression themselves.
\<close>

definition escaped_home :: "env \<Rightarrow> string option" where
  "escaped_home env =
     (case env ''HOME'' of
        None \<Rightarrow> None
      | Some h \<Rightarrow> if h = [] then Some h else Some (escapeRegexSpecialChars h))"

text \<open>The three objects the callback of \<open>reduce\<close> appends for one variant.\<close>

definition location_rules :: "string option \<Rightarrow> VariantSpec \<Rightarrow> error + IPriority list" where
  "location_rules home p =
     (case RegExp (''^/Applications/.*'' @ name p) of
        Inl e \<Rightarrow> Inl e
      | Inr r1 \<Rightarrow>
     (case RegExp (''^'' @ interpolate home @ ''/Applications/.*'' @ name p) of
        Inl e \<Rightarrow> Inl e
      | Inr r2 \<Rightarrow>
     (case RegExp (''^/Volumes/.*'' @ name p) of
        Inl e \<Rightarrow> Inl e
      | Inr r3 \<Rightarrow>
          Inr [\<lparr>weight = number_add (weight p) 100, quality = quality p, regex = r1\<rparr>,
               \<lparr>weight = weight p, quality = quality p, regex = r2\<rparr>,
               \<lparr>weight = number_sub (weight p) 100, quality = quality p, regex = r3\<rparr>])))"

fun reduce_priorities ::
  "string option \<Rightarrow> VariantSpec list \<Rightarrow> IPriority list \<Rightarrow> error + IPriority list" where
  "reduce_priorities home [] acc = Inr acc"
| "reduce_priorities home (p # ps) acc =
     (case location_rules home p of
        Inl e \<Rightarrow> Inl e
      | Inr rs \<Rightarrow> reduce_priorities home ps (acc @ rs))"

text \<open>
  \<open>createPriorities\<close>; \<open>preferred\<close> is what \<open>this.getPreferredPath()\<close> returned. An
  unset and an empty override are falsy: no rule is prepended for them.
\<close>

definition createPriorities ::
  "env \<Rightarrow> string option \<Rightarrow> VariantSpec list \<Rightarrow> error + IPriority list" where
  "createPriorities env preferred priorities =
     (let home = escaped_home env in
      case reduce_priorities home priorities [] of
        Inl e \<Rightarrow> Inl e
      | Inr mapped \<Rightarrow>
          (case preferred of
             None \<Rightarrow> Inr mapped
           | Some pref \<Rightarrow>
               if pref = [] then Inr mapped
               else (case RegExp (escapeRegexSpecialChars pref) of
                       Inl e \<Rightarrow> Inl e
                     | Inr r \<Rightarrow>
                         Inr (\<lparr>weight = 151, quality = Custom, regex = r\<rparr> # mapped))))"

section \<open>Strings and paths of the runtime\<close>

text \<open>
  \<open>s.split(sep)\<close> for a one-character separator: the empty string splits into one
  empty string, and a trailing separator gives a trailing empty string.
\<close>

fun split :: "char \<Rightarrow> string \<Rightarrow> string list" where
  "split sep [] = [[]]"
| "split sep (c # cs) =
     (if c = sep then [] # split sep cs
      else (case split sep cs of
              [] \<Rightarrow> [[c]]
            | l # ls \<Rightarrow> (c # l) # ls))"

text \<open>
  \<open>s.trim()\<close> removes white space and line terminators at both ends; among the 8-bit
  characters these are tab, line feed, vertical tab, form feed, carriage return, space
  and the no-break space.
\<close>

definition is_space :: "char \<Rightarrow> bool" where
  "is_space c = (c \<in> set [CHR 0x09, CHR 0x0A, CHR 0x0B, CHR 0x0C, CHR 0x0D, CHR 0x20, CHR 0xA0])"

definition trim :: "string \<Rightarrow> string" where
  "trim s = rev (dropWhile is_space (rev (dropWhile is_space s)))"

text \<open>\<open>s.toLowerCase()\<close> on 8-bit characters: the letters A to Z and the accented capitals.\<close>

definition lower_char :: "char \<Rightarrow> char" where
  "lower_char c =
     (let n = (of_char c :: nat) in
      if (65 \<le> n \<and> n \<le> 90) \<or> (192 \<le> n \<and> n \<le> 222 \<and> n \<noteq> 215)
      then char_of (n + 32) else c)"

definition toLowerCase :: "string \<Rightarrow> string" where
  "toLowerCase s = map lower_char s"

text \<open>
  \<open>posix.join(a, b)\<close> of Node's \<open>path\<close> module: the non-empty arguments are joined with
  \<open>/\<close> and the result is normalised. Normalising drops empty and \<open>.\<close> segments, lets a
  \<open>..\<close> segment remove the segment before it (a relative path keeps a leading \<open>..\<close>,
  an absolute one drops it), and keeps a leading and a trailing slash.
\<close>

fun normalize_segments :: "bool \<Rightarrow> string list \<Rightarrow> string list \<Rightarrow> string list" where
  "normalize_segments allowAboveRoot [] res = res"
| "normalize_segments allowAboveRoot (seg # segs) res =
     (if seg = [] \<or> seg = ''.'' then normalize_segments allowAboveRoot segs res
      else if seg = ''..'' then
        (if res \<noteq> [] \<and> last res \<noteq> ''..''
         then normalize_segments allowAboveRoot segs (butlast res)
         else if allowAboveRoot
         then normalize_segments allowAboveRoot segs (res @ [''..''])
         else normalize_segments allowAboveRoot segs res)
      else normalize_segments allowAboveRoot segs (res @ [seg]))"

fun join_with :: "char \<Rightarrow> string list \<Rightarrow> string" where
  "join_with sep [] = []"
| "join_with sep [s] = s"
| "join_with sep (s # t # ss) = s @ sep # join_with sep (t # ss)"

definition posix_normalize :: "string \<Rightarrow> string" where
  "posix_normalize p =
     (if p = [] then ''.''
      else
        let isAbsolute = (hd p = CHR ''/'');
            trailingSeparator = (last p = CHR ''/'');
            q = join_with (CHR ''/'') (normalize_segments (\<not> isAbsolute) (split (CHR ''/'') p) [])
        in if q = [] then (if isAbsolute then ''/'' else if trailingSeparator then ''./'' else ''.'')
           else (if isAbsolute then ''/'' else []) @ q @ (if trailingSeparator then ''/'' else []))"

definition posix_join :: "string \<Rightarrow> string \<Rightarrow> string" where
  "posix_join a b =
     (if a = [] \<and> b = [] then ''.''
      else if a = [] then posix_normalize b
      else if b = [] then posix_normalize a
      else posix_normalize (a @ ''/'' @ b))"

text \<open>
  A \<open>Set<string>\<close> keeps its elements in the order of their first insertion: a list
  without duplicates.
\<close>

definition set_add :: "string \<Rightarrow> string list \<Rightarrow> string list" where
  "set_add x xs = (if x \<in> set xs then xs else xs @ [x])"

section \<open>The collaborators\<close>

text \<open>
  The two collaborators handed to the constructor: \<open>execa.command\<close>, which runs a shell
  command and resolves to its standard output or rejects, and \<open>fs.access\<close>, which
  resolves for an accessible path and rejects for any other. Every call of the finder
  is given the collaborators as they answer at that moment.
\<close>

record world =
  execa_command :: "string \<Rightarrow> error + string"
  fs_access :: "string \<Rightarrow> bool"

text \<open>
  Modelled from the spec: \<open>canAccess\<close> is imported from the package's \<open>util\<close> module,
  which is not among the sources. The spec (sections 2 and 6) gives it as the
  accessibility check: it answers whether the path exists and is accessible.
\<close>

definition canAccess :: "world \<Rightarrow> string \<Rightarrow> bool" where
  "canAccess w file = fs_access w file"

subsection \<open>The shell\<close>

text \<open>
  The finder runs its command with \<open>shell: true\<close>: \<open>execa.command\<close> hands the command
  line to \<open>/bin/sh\<close>, resolves to what was printed when the shell exits with status 0,
  and rejects otherwise. The command line of \<open>findLaunchRegisteredApps\<close> is a pipeline
  of two programs, the registry dump and the \<open>awk\<close> filter. The shell starts both, the
  second reading what the first prints, and the status of a pipeline is the status of
  its last program; the command line sets no \<open>pipefail\<close>. A program that cannot be
  started prints nothing, and its status is 127.
\<close>

record process =
  exit_status :: nat
  printed :: string

definition pipeline :: "process \<Rightarrow> (string \<Rightarrow> process) \<Rightarrow> process" where
  "pipeline first second = second (printed first)"

definition execa_shell :: "process \<Rightarrow> error + string" where
  "execa_shell p =
     (if exit_status p = 0 then Inr (printed p) else Inl (CommandFailed ''Command failed''))"

text \<open>A host given by what the dump does, what \<open>awk\<close> does on an input, and the
  accessible paths.\<close>

definition shell_world :: "process \<Rightarrow> (string \<Rightarrow> process) \<Rightarrow> (string \<Rightarrow> bool) \<Rightarrow> world" where
  "shell_world dump awk access =
     \<lparr>execa_command = (\<lambda>command. execa_shell (pipeline dump awk)), fs_access = access\<rparr>"

section \<open>The registry scan\<close>

text \<open>\<open>pathSuffixRe = /( \(0x[a-f0-9]+\))/\<close>, and its \<open>source\<close>.\<close>

definition pathSuffixRe :: regex where
  "pathSuffixRe =
     [One (Lit (CHR '' '')), One (Lit (CHR ''('')), One (Lit (CHR ''0'')), One (Lit (CHR ''x'')),
      Plus (OneOf ''abcdef0123456789''), One (Lit (CHR '')''))]"

definition pathSuffixRe_source :: string where
  "pathSuffixRe_source = ''( '' @ [backslash] @ ''(0x[a-f0-9]+'' @ [backslash] @ ''))''"

definition lsRegisterCommand :: string where
  "lsRegisterCommand =
     ''/System/Library/Frameworks/CoreServices.framework'' @
     ''/Versions/A/Frameworks/LaunchServices.framework'' @
     ''/Versions/A/Support/lsregister -dump''"

definition registry_command :: "string \<Rightarrow> string" where
  "registry_command pattern =
     lsRegisterCommand @ '' | awk '' @ [CHR 0x27] @ ''tolower($0) ~ /'' @ toLowerCase pattern @
     pathSuffixRe_source @ ''?$/ { $1='' @ [CHR 0x22, CHR 0x22] @ ''; print $0 }'' @ [CHR 0x27]"

text \<open>The inner loop: one candidate directory, every suffix; no access is ignored.\<close>

fun add_suffixes :: "world \<Rightarrow> string \<Rightarrow> string list \<Rightarrow> string list \<Rightarrow> string list" where
  "add_suffixes w inst [] installations = installations"
| "add_suffixes w inst (sfx # sfxs) installations =
     (let execPath = posix_join (trim inst) sfx in
      if fs_access w execPath
      then add_suffixes w inst sfxs (set_add execPath installations)
      else add_suffixes w inst sfxs installations)"

fun add_paths :: "world \<Rightarrow> string list \<Rightarrow> string list \<Rightarrow> string list \<Rightarrow> string list" where
  "add_paths w [] sfxs installations = installations"
| "add_paths w (inst # paths) sfxs installations =
     add_paths w paths sfxs (add_suffixes w inst sfxs installations)"

text \<open>
  \<open>findLaunchRegisteredApps\<close>. The last argument and the second component of the
  result are the commands handed to \<open>execa.command\<close> so far, in order. A rejection of the
  command is not caught: it is the result.
\<close>

definition registry_paths :: "string list \<Rightarrow> string \<Rightarrow> string list" where
  "registry_paths defaultPaths stdout =
     filter (\<lambda>l. l \<noteq> [])
       (defaultPaths @ map (\<lambda>l. replace_empty (trim l) pathSuffixRe) (split (CHR 0x0A) stdout))"

definition findLaunchRegisteredApps ::
  "world \<Rightarrow> string option \<Rightarrow> string \<Rightarrow> string list \<Rightarrow> string list \<Rightarrow> string list
     \<Rightarrow> (error + string list) \<times> string list" where
  "findLaunchRegisteredApps w preferred pattern defaultPaths sfxs cmds =
     (let command = registry_command pattern;
          cmds' = cmds @ [command]
      in case execa_command w command of
           Inl e \<Rightarrow> (Inl e, cmds')
         | Inr stdout \<Rightarrow>
             (let paths = registry_paths defaultPaths stdout;
                  paths' = (case preferred of
                              None \<Rightarrow> paths
                            | Some pref \<Rightarrow> if pref = [] then paths else paths @ [pref])
              in (Inr (add_paths w paths' sfxs []), cmds')))"

section \<open>Sorting\<close>

text \<open>
  Modelled from the spec: \<open>sort\<close> is imported from the package's \<open>util\<close> module, which
  is not among the sources. The spec (section 4.4): for each candidate path the rules
  are evaluated in order and the first match gives weight and quality; a candidate that
  matches no rule is kept out of the result; the result is ordered by weight, highest
  first, and candidates of equal weight keep their order of first appearance.
\<close>

definition rank :: "IPriority list \<Rightarrow> string \<Rightarrow> (int \<times> IExecutable) option" where
  "rank priorities inst =
     (case find (\<lambda>p. test (regex p) inst) priorities of
        None \<Rightarrow> None
      | Some p \<Rightarrow> Some (weight p, \<lparr>path = inst, exe_quality = quality p\<rparr>))"

definition sort_installations :: "string list \<Rightarrow> IPriority list \<Rightarrow> IExecutable list" where
  "sort_installations installations priorities =
     map snd (sort_key (\<lambda>r. - fst r) (List.map_filter (rank priorities) installations))"

section \<open>The finder\<close>

text \<open>
  The state of one finder: its field \<open>foundAll\<close>, the promise of the scan by what it
  settles to, and the commands run through \<open>execa.command\<close> so far.
\<close>

type_synonym 'a promise = "error + 'a"

record finder =
  foundAll :: "IExecutable list promise option"
  invoked :: "string list"

definition new_finder :: finder where
  "new_finder = \<lparr>foundAll = None, invoked = []\<rparr>"

text \<open>
  \<open>findAll\<close>: \<open>this.foundAll ??= this.findAllInner()\<close>. The abstract \<open>findAllInner\<close> of the
  variant is the parameter \<open>inner\<close>; it is given the commands run so far and returns
  them with its own appended. The method is synchronous: the field is assigned before
  any other call can run.
\<close>

definition findAll ::
  "(world \<Rightarrow> string list \<Rightarrow> IExecutable list promise \<times> string list) \<Rightarrow> world \<Rightarrow> finder
     \<Rightarrow> IExecutable list promise \<times> finder" where
  "findAll inner w st =
     (case foundAll st of
        None \<Rightarrow>
          (let (p, cmds') = inner w (invoked st)
           in (p, st\<lparr>foundAll := Some p, invoked := cmds'\<rparr>))
      | Some p \<Rightarrow> (p, st))"

text \<open>\<open>findWhere\<close>: the loop over the well-known paths, then the full scan.\<close>

fun findWhere ::
  "IExecutable list \<Rightarrow> (world \<Rightarrow> string list \<Rightarrow> IExecutable list promise \<times> string list)
     \<Rightarrow> world \<Rightarrow> (IExecutable \<Rightarrow> bool) \<Rightarrow> finder \<Rightarrow> IExecutable option promise \<times> finder" where
  "findWhere [] inner w predicate st =
     (case findAll inner w st of
        (Inl e, st') \<Rightarrow> (Inl e, st')
      | (Inr found, st') \<Rightarrow> (Inr (find predicate found), st'))"
| "findWhere (t # wellKnownPaths) inner w predicate st =
     (if predicate t \<and> canAccess w (path t) then (Inr (Some t), st)
      else findWhere wellKnownPaths inner w predicate st)"

subsection \<open>The Firefox finder\<close>

definition firefox_wellKnownPaths :: "IExecutable list" where
  "firefox_wellKnownPaths =
     [\<lparr>path = ''/Applications/Firefox.app/Contents/MacOS/firefox'', exe_quality = Stable\<rparr>,
      \<lparr>path = ''/Applications/Firefox Developer Edition.app/Contents/MacOS/firefox'',
         exe_quality = Dev\<rparr>,
      \<lparr>path = ''/Applications/Firefox Nightly.app/Contents/MacOS/firefox'',
         exe_quality = Canary\<rparr>]"

definition firefox_getPreferredPath :: "env \<Rightarrow> string option" where
  "firefox_getPreferredPath env = env ''FIREFOX_PATH''"

definition firefox_priorities :: "VariantSpec list" where
  "firefox_priorities =
     [\<lparr>weight = 0, quality = Stable, name = ''Firefox.app''\<rparr>,
      \<lparr>weight = 1, quality = Canary, name = ''Firefox Nightly.app''\<rparr>,
      \<lparr>weight = 2, quality = Dev, name = ''Firefox Developer Edition.app''\<rparr>]"

definition firefox_findAllInner ::
  "env \<Rightarrow> world \<Rightarrow> string list \<Rightarrow> IExecutable list promise \<times> string list" where
  "firefox_findAllInner env w cmds =
     (let sfxs = [''/Contents/MacOS/firefox''];
          defaultPaths = [''/Applications/Firefox.app'']
      in case findLaunchRegisteredApps w (firefox_getPreferredPath env)
                ''Firefox[A-Za-z ]*.app'' defaultPaths sfxs cmds of
           (Inl e, cmds') \<Rightarrow> (Inl e, cmds')
         | (Inr installations, cmds') \<Rightarrow>
             (case createPriorities env (firefox_getPreferredPath env) firefox_priorities of
                Inl e \<Rightarrow> (Inl e, cmds')
              | Inr priorities \<Rightarrow> (Inr (sort_installations installations priorities), cmds')))"

section \<open>Notions used in the statements\<close>

text \<open>The pattern that matches a string character by character.\<close>

definition literal :: "string \<Rightarrow> regex" where
  "literal s = map (\<lambda>c. One (Lit c)) s"

fun no_quant_first :: "token list \<Rightarrow> bool" where
  "no_quant_first (TQuant q # ts) = False"
| "no_quant_first ts = True"

text \<open>\<open>new RegExp(source)\<close> returns, inside the fragment.\<close>

definition compiles :: "string \<Rightarrow> bool" where
  "compiles source = (case RegExp source of Inl e \<Rightarrow> False | Inr r \<Rightarrow> True)"

text \<open>The text that stands for the home directory in the pattern of the home rule.\<close>

definition home_text :: "env \<Rightarrow> string" where
  "home_text env = (case env ''HOME'' of None \<Rightarrow> ''undefined'' | Some h \<Rightarrow> h)"

text \<open>
  The three patterns of a variant end alike, in \<open>.*\<close> and the variant's name. The
  closed form of the rules of \<open>createPriorities\<close> is an optional override rule and one
  triple per variant.
\<close>

definition name_tail :: "string \<Rightarrow> regex" where
  "name_tail n = (case RegExp (''.*'' @ n) of Inl e \<Rightarrow> [] | Inr t \<Rightarrow> t)"

definition location_triple :: "string \<Rightarrow> VariantSpec \<Rightarrow> IPriority list" where
  "location_triple h p =
     [\<lparr>weight = number_add (weight p) 100, quality = quality p,
        regex = Bol # literal ''/Applications/'' @ name_tail (name p)\<rparr>,
      \<lparr>weight = weight p, quality = quality p,
        regex = Bol # literal (h @ ''/Applications/'') @ name_tail (name p)\<rparr>,
      \<lparr>weight = number_sub (weight p) 100, quality = quality p,
        regex = Bol # literal ''/Volumes/'' @ name_tail (name p)\<rparr>]"

definition override_rule :: "string option \<Rightarrow> IPriority list" where
  "override_rule preferred =
     (case preferred of
        None \<Rightarrow> []
      | Some pref \<Rightarrow>
          if pref = [] then [] else [\<lparr>weight = 151, quality = Custom, regex = literal pref\<rparr>])"

definition rank_of :: "IPriority \<Rightarrow> int \<times> Quality" where
  "rank_of r = (weight r, quality r)"

definition variant_ranks :: "VariantSpec \<Rightarrow> (int \<times> Quality) list" where
  "variant_ranks p =
     [(number_add (weight p) 100, quality p), (weight p, quality p),
      (number_sub (weight p) 100, quality p)]"

definition first_rule_matches :: "error + IPriority list \<Rightarrow> string \<Rightarrow> bool" where
  "first_rule_matches rules c =
     (case rules of Inr (r # rs) \<Rightarrow> test (regex r) c | _ \<Rightarrow> False)"

text \<open>
  A run of calls of \<open>findAll\<close> on one finder, each with the collaborators as they
  answer at the time of the call; the promises returned, in order, and the final state.
\<close>

fun findAll_calls ::
  "(world \<Rightarrow> string list \<Rightarrow> IExecutable list promise \<times> string list) \<Rightarrow> world list \<Rightarrow> finder
     \<Rightarrow> IExecutable list promise list \<times> finder" where
  "findAll_calls inner [] st = ([], st)"
| "findAll_calls inner (w # ws) st =
     (let (p, st') = findAll inner w st;
          (ps, st'') = findAll_calls inner ws st'
      in (p # ps, st''))"


text \<open>The class of \<open>pathSuffixRe\<close>, and the marker it describes for given digits.\<close>

definition hexClass :: "char list" where
  "hexClass = ''abcdef0123456789''"

definition marker :: "string \<Rightarrow> string" where
  "marker hex = '' (0x'' @ hex @ '')''"

text \<open>The directories that are joined with the suffixes, and the joined paths that are
  accessible, in the order of the two loops.\<close>

definition candidate_dirs :: "string list \<Rightarrow> string \<Rightarrow> string option \<Rightarrow> string list" where
  "candidate_dirs defaultPaths out preferred =
     registry_paths defaultPaths out @
     (case preferred of None \<Rightarrow> [] | Some pref \<Rightarrow> if pref = [] then [] else [pref])"

definition accessible_candidates :: "world \<Rightarrow> string list \<Rightarrow> string list \<Rightarrow> string list" where
  "accessible_candidates w dirs sfxs =
     filter (fs_access w) (concat (map (\<lambda>d. map (posix_join (trim d)) sfxs) dirs))"

subsection \<open>Concrete inputs\<close>

definition heavy_variant :: VariantSpec where
  "heavy_variant = \<lparr>weight = 51, quality = Stable, name = ''Firefox.app''\<rparr>"

definition odd_env :: env where
  "odd_env = [''HOME'' \<mapsto> ''/Users/a.b (c)*'']"

text \<open>The command fails; it succeeds and one Firefox is installed; it succeeds and none is.\<close>

definition failing_world :: world where
  "failing_world =
     \<lparr>execa_command = (\<lambda>c. Inl (CommandFailed ''exit 1'')), fs_access = (\<lambda>p. True)\<rparr>"

definition recovered_world :: world where
  "recovered_world =
     \<lparr>execa_command = (\<lambda>c. Inr '' /Applications/Firefox.app''),
      fs_access = (\<lambda>p. p = ''/Applications/Firefox.app/Contents/MacOS/firefox'')\<rparr>"

definition bare_world :: world where
  "bare_world = \<lparr>execa_command = (\<lambda>c. Inr []), fs_access = (\<lambda>p. False)\<rparr>"

text \<open>The command fails, and only Firefox Nightly is installed; a predicate for it.\<close>

definition nightly_world :: world where
  "nightly_world =
     \<lparr>execa_command = (\<lambda>c. Inl (CommandFailed ''exit 1'')),
      fs_access = (\<lambda>p. p = ''/Applications/Firefox Nightly.app/Contents/MacOS/firefox'')\<rparr>"

definition is_canary :: "IExecutable \<Rightarrow> bool" where
  "is_canary exe = (exe_quality exe = Canary)"





text \<open>The command prints the given output, and exactly one path is accessible.\<close>

definition registry_world :: "string \<Rightarrow> string \<Rightarrow> world" where
  "registry_world out ok = \<lparr>execa_command = (\<lambda>c. Inr out), fs_access = (\<lambda>p. p = ok)\<rparr>"

text \<open>\<open>lsregister\<close> is missing; it stops with an error before it prints; \<open>awk\<close> when no
  line of its input is selected, as on the empty input.\<close>

definition missing_program :: process where
  "missing_program = \<lparr>exit_status = 127, printed = []\<rparr>"

definition crashed_program :: process where
  "crashed_program = \<lparr>exit_status = 1, printed = []\<rparr>"

definition awk_silent :: "string \<Rightarrow> process" where
  "awk_silent input = \<lparr>exit_status = 0, printed = []\<rparr>"

section \<open>Rounding\<close>

lemma spacing_small: "a < 2 ^ 53 \<Longrightarrow> spacing a = 1"
  by (subst spacing.simps) simp

lemma to_double_exact: "\<bar>n\<bar> < 2 ^ 53 \<Longrightarrow> to_double n = n"
  by (simp add: to_double_def spacing_small Let_def mult_sgn_abs)

lemma spacing_pos: "0 < spacing a"
proof (induction a rule: spacing.induct)
  case (1 a)
  then show ?case by (subst spacing.simps) simp
qed

lemma spacing_le: "2 ^ 52 \<le> a \<Longrightarrow> 2 ^ 52 * spacing a \<le> a"
proof (induction a rule: spacing.induct)
  case (1 a)
  show ?case
  proof (cases "a < 2 ^ 53")
    case True
    then show ?thesis using 1(2) by (simp add: spacing_small)
  next
    case False
    then have "2 ^ 52 \<le> a div 2" by simp
    from 1(1)[OF False this] have "2 * (2 ^ 52 * spacing (a div 2)) \<le> 2 * (a div 2)" by simp
    also have "\<dots> \<le> a" by simp
    finally show ?thesis using False by (subst spacing.simps) simp
  qed
qed

lemma spacing_large: "2 ^ 53 \<le> a \<Longrightarrow> 2 \<le> spacing a"
  using spacing_pos[of "a div 2"] by (subst spacing.simps) simp

lemma to_double_large:
  assumes "2 ^ 53 \<le> n"
  shows "2 ^ 53 \<le> to_double n"
proof -
  define u where "u = spacing n"
  define q where "q = n div u"
  define q' where "q' = (if u < 2 * (n mod u) \<or> (2 * (n mod u) = u \<and> odd q) then q + 1 else q)"
  have u: "2 \<le> u" unfolding u_def by (rule spacing_large[OF assms])
  have "2 ^ 52 * u \<le> n" unfolding u_def using assms by (intro spacing_le) simp
  then have "(2 ^ 52 * u) div u \<le> n div u" using u by (intro zdiv_mono1) simp_all
  then have "2 ^ 52 \<le> q" unfolding q_def using u by simp
  then have q': "2 ^ 52 \<le> q'" unfolding q'_def by simp
  have "(2 ^ 52 :: int) * 2 \<le> q' * u" using q' u by (intro mult_mono) simp_all
  moreover have "to_double n = q' * u"
    using assms by (simp add: to_double_def Let_def q'_def q_def u_def)
  ultimately show ?thesis by simp
qed

lemma to_double_neg: "to_double (- n) = - to_double n"
  by (simp add: to_double_def Let_def)

lemma to_double_small:
  assumes "n \<le> - (2 ^ 53)"
  shows "to_double n \<le> - (2 ^ 53)"
proof -
  have "2 ^ 53 \<le> to_double (- n)" using assms by (intro to_double_large) simp
  then show ?thesis unfolding to_double_neg by simp
qed

lemma to_double_less_iff:
  assumes "\<bar>k\<bar> < 2 ^ 53"
  shows "to_double n < k \<longleftrightarrow> n < k"
proof -
  consider "\<bar>n\<bar> < 2 ^ 53" | "2 ^ 53 \<le> n" | "n \<le> - (2 ^ 53)" by linarith
  then show ?thesis
  proof cases
    case 1
    then show ?thesis by (simp add: to_double_exact)
  next
    case 2
    with to_double_large[OF 2] assms show ?thesis by linarith
  next
    case 3
    with to_double_small[OF 3] assms show ?thesis by linarith
  qed
qed

lemma number_add_exact: "\<bar>a + b\<bar> < 2 ^ 53 \<Longrightarrow> number_add a b = a + b"
  by (simp add: number_add_def to_double_exact)

lemma number_sub_exact: "\<bar>a - b\<bar> < 2 ^ 53 \<Longrightarrow> number_sub a b = a - b"
  by (simp add: number_sub_def to_double_exact)

section \<open>Compiling the patterns\<close>

lemma literal_simps [simp]:
  "literal [] = []" "literal (c # cs) = One (Lit c) # literal cs"
  by (simp_all add: literal_def)

lemma regexChars_iff: "c \<in> set regexChars \<longleftrightarrow> c \<in> set syntaxChars \<or> c = CHR ''/''"
  by (auto simp: regexChars_def syntaxChars_def)

lemma scan_plain:
  "c \<notin> set regexChars \<Longrightarrow> scan (c # cs) = cons_ok (TAtom (Lit c)) (scan cs)"
  by (simp add: regexChars_def backslash_def)

lemma scan_escaped:
  "c \<in> set regexChars \<Longrightarrow> scan (backslash # c # cs) = cons_ok (TAtom (Lit c)) (scan cs)"
  by (simp add: regexChars_iff)

text \<open>An escaped string scans to one literal atom per character of the string.\<close>

lemma scan_escape:
  "scan (escapeRegexSpecialChars s @ r) =
     (case scan r of Inl e \<Rightarrow> Inl e | Inr ts \<Rightarrow> Inr (map (\<lambda>c. TAtom (Lit c)) s @ ts))"
proof (induction s)
  case Nil
  then show ?case by (simp split: sum.splits)
next
  case (Cons c s)
  show ?case
  proof (cases "c \<in> set regexChars")
    case True
    then have "scan (escapeRegexSpecialChars (c # s) @ r) =
        cons_ok (TAtom (Lit c)) (scan (escapeRegexSpecialChars s @ r))"
      using scan_escaped[of c] by simp
    then show ?thesis using Cons.IH by (simp split: sum.splits)
  next
    case False
    then have "scan (escapeRegexSpecialChars (c # s) @ r) =
        cons_ok (TAtom (Lit c)) (scan (escapeRegexSpecialChars s @ r))"
      using scan_plain[of c] by simp
    then show ?thesis using Cons.IH by (simp split: sum.splits)
  qed
qed

lemma scan_plain_char:
  "c \<notin> set syntaxChars \<Longrightarrow> scan (c # cs) = cons_ok (TAtom (Lit c)) (scan cs)"
  by (simp add: syntaxChars_def backslash_def)

lemma scan_plain_string:
  "set s \<inter> set syntaxChars = {} \<Longrightarrow>
   scan (s @ r) =
     (case scan r of Inl e \<Rightarrow> Inl e | Inr ts \<Rightarrow> Inr (map (\<lambda>c. TAtom (Lit c)) s @ ts))"
proof (induction s)
  case Nil
  then show ?case by (simp split: sum.splits)
next
  case (Cons c s)
  then have "scan ((c # s) @ r) = cons_ok (TAtom (Lit c)) (scan (s @ r))"
    using scan_plain_char[of c] by simp
  then show ?case using Cons by (simp split: sum.splits)
qed

lemma scan_dotstar:
  "scan (''.*'' @ n) =
     (case scan n of Inl e \<Rightarrow> Inl e | Inr ts \<Rightarrow> Inr (TAtom AnyChar # TQuant QStar # ts))"
  by (simp add: backslash_def split: sum.splits)

lemma pieces_atom_step:
  "no_quant_first ts \<Longrightarrow> pieces (TAtom a # ts) = cons_ok (One a) (pieces ts)"
  by (cases ts rule: no_quant_first.cases) simp_all

lemma pieces_atoms:
  "no_quant_first ts \<Longrightarrow>
   pieces (map (\<lambda>c. TAtom (Lit c)) s @ ts) =
     (case pieces ts of Inl e \<Rightarrow> Inl e | Inr ps \<Rightarrow> Inr (literal s @ ps))"
proof (induction s)
  case Nil
  then show ?case by (simp split: sum.splits)
next
  case (Cons c s)
  have "no_quant_first (map (\<lambda>c. TAtom (Lit c)) s @ ts)"
    using Cons.prems by (cases s) simp_all
  then have "pieces (map (\<lambda>c. TAtom (Lit c)) (c # s) @ ts) =
      cons_ok (One (Lit c)) (pieces (map (\<lambda>c. TAtom (Lit c)) s @ ts))"
    using pieces_atom_step by simp
  then show ?case using Cons by (simp split: sum.splits)
qed

lemma RegExp_dotstar:
  "RegExp (''.*'' @ n) =
     (case scan n of Inl e \<Rightarrow> Inl e | Inr ts \<Rightarrow> pieces (TAtom AnyChar # TQuant QStar # ts))"
  by (simp add: RegExp_def backslash_def split: sum.splits)

text \<open>
  A rule pattern: \<open>^\<close>, an escaped string, a root without syntax characters, \<open>.*\<close> and
  the name. It compiles exactly when \<open>.*\<close> and the name do, to an anchored literal
  followed by what they compile to.
\<close>

lemma RegExp_rule:
  assumes "set root \<inter> set syntaxChars = {}"
  shows "RegExp (''^'' @ escapeRegexSpecialChars X @ root @ ''.*'' @ n) =
     (case RegExp (''.*'' @ n) of
        Inl e \<Rightarrow> Inl e
      | Inr t \<Rightarrow> Inr (Bol # literal (X @ root) @ t))"
proof (cases "scan n")
  case (Inl e)
  have "scan (escapeRegexSpecialChars X @ root @ ''.*'' @ n) = Inl e"
    unfolding scan_escape scan_plain_string[OF assms] scan_dotstar Inl by simp
  then have "scan (''^'' @ escapeRegexSpecialChars X @ root @ ''.*'' @ n) = Inl e"
    by (simp add: backslash_def)
  then show ?thesis
    unfolding RegExp_def scan_dotstar Inl by simp
next
  case (Inr ts)
  have l: "scan (''^'' @ escapeRegexSpecialChars X @ root @ ''.*'' @ n) =
      Inr (TBol # map (\<lambda>c. TAtom (Lit c)) (X @ root) @ TAtom AnyChar # TQuant QStar # ts)"
  proof -
    have "scan (escapeRegexSpecialChars X @ root @ ''.*'' @ n) =
      Inr (map (\<lambda>c. TAtom (Lit c)) (X @ root) @ TAtom AnyChar # TQuant QStar # ts)"
      unfolding scan_escape scan_plain_string[OF assms] scan_dotstar Inr by simp
    then show ?thesis by (simp add: backslash_def)
  qed
  have "pieces (TBol # map (\<lambda>c. TAtom (Lit c)) (X @ root) @ TAtom AnyChar # TQuant QStar # ts) =
     (case pieces (TAtom AnyChar # TQuant QStar # ts) of
        Inl e \<Rightarrow> Inl e
      | Inr t \<Rightarrow> Inr (Bol # literal (X @ root) @ t))"
    using pieces_atoms[of "TAtom AnyChar # TQuant QStar # ts" "X @ root"]
    by (simp split: sum.splits)
  then show ?thesis
    unfolding RegExp_def l scan_dotstar Inr by simp
qed

lemma RegExp_escape: "RegExp (escapeRegexSpecialChars s) = Inr (literal s)"
  using scan_escape[of s "[]"] pieces_atoms[of "[]" s] by (simp add: RegExp_def)

lemma interpolate_escaped_home:
  "interpolate (escaped_home env) = escapeRegexSpecialChars (home_text env)"
  by (simp add: escaped_home_def home_text_def regexChars_def backslash_def split: option.splits)

lemma RegExp_system_rule:
  "RegExp (''^/Applications/.*'' @ n) =
     (case RegExp (''.*'' @ n) of
        Inl e \<Rightarrow> Inl e
      | Inr t \<Rightarrow> Inr (Bol # literal ''/Applications/'' @ t))"
  using RegExp_rule[of "''/Applications/''" "[]" n]
  by (simp add: syntaxChars_def backslash_def cong: sum.case_cong)

lemma RegExp_volumes_rule:
  "RegExp (''^/Volumes/.*'' @ n) =
     (case RegExp (''.*'' @ n) of
        Inl e \<Rightarrow> Inl e
      | Inr t \<Rightarrow> Inr (Bol # literal ''/Volumes/'' @ t))"
  using RegExp_rule[of "''/Volumes/''" "[]" n]
  by (simp add: syntaxChars_def backslash_def cong: sum.case_cong)

lemma RegExp_home_rule:
  "RegExp (''^'' @ interpolate (escaped_home env) @ ''/Applications/.*'' @ n) =
     (case RegExp (''.*'' @ n) of
        Inl e \<Rightarrow> Inl e
      | Inr t \<Rightarrow> Inr (Bol # literal (home_text env @ ''/Applications/'') @ t))"
  using RegExp_rule[of "''/Applications/''" "home_text env" n]
  by (simp add: syntaxChars_def backslash_def interpolate_escaped_home cong: sum.case_cong)

lemma compiles_system_iff: "compiles (''^/Applications/.*'' @ n) = compiles (''.*'' @ n)"
  unfolding compiles_def RegExp_system_rule by (simp split: sum.splits)

section \<open>Matching\<close>

lemma match_here_literal:
  "match_here (literal s @ ps) b inp =
     (if prefix s inp then match_here ps (b \<and> s = []) (drop (length s) inp) else None)"
proof (induction s arbitrary: b inp)
  case Nil
  then show ?case by simp
next
  case (Cons c s)
  show ?case
  proof (cases inp)
    case Nil
    then show ?thesis by simp
  next
    case (Cons d ds)
    then show ?thesis using Cons.IH[of False ds] by auto
  qed
qed

lemma test_from_Bol_False: "\<not> test_from (Bol # ps) False inp"
  by (induction inp) simp_all

lemma test_Bol: "test (Bol # ps) inp = (match_here ps True inp \<noteq> None)"
  by (cases inp) (simp_all add: test_def test_from_Bol_False)

text \<open>An anchored literal matches only the paths that begin with it.\<close>

lemma test_anchored:
  "test (Bol # literal s @ ps) inp =
     (prefix s inp \<and> match_here ps (s = []) (drop (length s) inp) \<noteq> None)"
  by (simp add: test_Bol match_here_literal)

lemma match_here_literal_only:
  "match_here (literal s) b inp = (if prefix s inp then Some (drop (length s) inp) else None)"
  using match_here_literal[of s "[]" b inp] by simp

lemma test_from_literal: "test_from (literal s) b inp = sublist s inp"
proof (induction inp arbitrary: b)
  case Nil
  then show ?case by (simp add: match_here_literal_only)
next
  case (Cons c cs)
  then show ?case
    by (simp add: match_here_literal_only sublist_Cons_right)
qed

text \<open>A literal without anchors matches the paths that contain it.\<close>

lemma test_literal: "test (literal s) inp = sublist s inp"
  by (simp add: test_def test_from_literal)

section \<open>The rules of \<open>createPriorities\<close> in closed form\<close>

lemma location_rules_eq:
  assumes "compiles (''^/Applications/.*'' @ name p)"
  shows "location_rules (escaped_home env) p = Inr (location_triple (home_text env) p)"
proof -
  from assms obtain t where t: "RegExp (''.*'' @ name p) = Inr t"
    unfolding compiles_system_iff by (auto simp: compiles_def split: sum.splits)
  have "name_tail (name p) = t"
    unfolding name_tail_def t by simp
  then show ?thesis
    unfolding location_rules_def RegExp_system_rule RegExp_home_rule RegExp_volumes_rule t
    by (simp add: location_triple_def)
qed

lemma reduce_priorities_eq:
  "\<forall>p\<in>set ps. compiles (''^/Applications/.*'' @ name p) \<Longrightarrow>
   reduce_priorities (escaped_home env) ps acc =
     Inr (acc @ concat (map (location_triple (home_text env)) ps))"
  by (induction ps arbitrary: acc) (simp_all add: location_rules_eq)

lemma createPriorities_eq:
  assumes "\<forall>p\<in>set ps. compiles (''^/Applications/.*'' @ name p)"
  shows "createPriorities env preferred ps =
     Inr (override_rule preferred @ concat (map (location_triple (home_text env)) ps))"
  unfolding createPriorities_def Let_def reduce_priorities_eq[OF assms]
  by (simp add: override_rule_def RegExp_escape split: option.splits)

lemma nth_concat_triples:
  "\<forall>x\<in>set xs. length (f x) = 3 \<Longrightarrow> i < length xs \<Longrightarrow> k < 3 \<Longrightarrow>
   concat (map f xs) ! (3 * i + k) = f (xs ! i) ! k"
proof (induction xs arbitrary: i)
  case Nil
  then show ?case by simp
next
  case (Cons x xs)
  show ?case
  proof (cases i)
    case 0
    then show ?thesis using Cons.prems by (simp add: nth_append)
  next
    case (Suc j)
    then have "3 * i + k = 3 + (3 * j + k)" by simp
    then show ?thesis using Cons Suc by (simp add: nth_append)
  qed
qed

lemma length_concat_triples:
  "\<forall>x\<in>set xs. length (f x) = 3 \<Longrightarrow> length (concat (map f xs)) = 3 * length xs"
  by (induction xs) simp_all

lemma length_location_triple: "length (location_triple h p) = 3"
  by (simp add: location_triple_def)

lemma rank_of_triples:
  "map rank_of (concat (map (location_triple h) ps)) = concat (map variant_ranks ps)"
  by (induction ps) (simp_all add: location_triple_def rank_of_def variant_ranks_def)

lemma home_rule_nth:
  assumes "i < length ps"
  shows "regex (concat (map (location_triple h) ps) ! (3 * i + 1)) =
           Bol # literal (h @ ''/Applications/'') @ name_tail (name (ps ! i))"
  using nth_concat_triples[of ps "location_triple h" i 1] assms
  by (simp add: length_location_triple) (simp add: location_triple_def)

lemma firefox_names_compile:
  "\<forall>p\<in>set firefox_priorities. compiles (''^/Applications/.*'' @ name p)"
  by (simp add: firefox_priorities_def compiles_def RegExp_def backslash_def)

section \<open>The registry scan in closed form\<close>

lemma findLaunchRegisteredApps_resolved:
  assumes "execa_command w (registry_command pattern) = Inr out"
  shows "findLaunchRegisteredApps w preferred pattern defaultPaths sfxs cmds =
    (Inr (add_paths w (candidate_dirs defaultPaths out preferred) sfxs []),
     cmds @ [registry_command pattern])"
  unfolding findLaunchRegisteredApps_def Let_def assms candidate_dirs_def
  by (simp split: option.splits)

lemma findLaunchRegisteredApps_rejected:
  assumes "execa_command w (registry_command pattern) = Inl e"
  shows "findLaunchRegisteredApps w preferred pattern defaultPaths sfxs cmds =
    (Inl e, cmds @ [registry_command pattern])"
  unfolding findLaunchRegisteredApps_def Let_def assms by simp

lemma set_set_add: "set (set_add x xs) = insert x (set xs)"
  by (auto simp: set_add_def)

lemma set_add_suffixes:
  "set (add_suffixes w inst sfxs acc) =
     set acc \<union> set (filter (fs_access w) (map (posix_join (trim inst)) sfxs))"
proof (induction sfxs arbitrary: acc)
  case Nil
  show ?case by simp
next
  case (Cons s sfxs)
  show ?case by (simp add: Let_def Cons.IH set_set_add)
qed

lemma set_add_paths:
  "set (add_paths w dirs sfxs acc) = set acc \<union> set (accessible_candidates w dirs sfxs)"
proof (induction dirs arbitrary: acc)
  case Nil
  show ?case by (simp add: accessible_candidates_def)
next
  case (Cons d dirs)
  have "set (add_paths w (d # dirs) sfxs acc) =
      set (add_suffixes w d sfxs acc) \<union> set (accessible_candidates w dirs sfxs)"
    by (simp only: add_paths.simps Cons.IH)
  also have "\<dots> = set acc \<union> set (accessible_candidates w (d # dirs) sfxs)"
    unfolding set_add_suffixes accessible_candidates_def by auto
  finally show ?case .
qed

lemma rank_path: "rank rules c = Some e \<Longrightarrow> path (snd e) = c"
  by (auto simp: rank_def split: option.splits)

lemma rank_None: "rank rules c = None \<longleftrightarrow> \<not> (\<exists>r\<in>set rules. test (regex r) c)"
proof -
  have "rank rules c = None \<longleftrightarrow> find (\<lambda>r. test (regex r) c) rules = None"
    by (simp add: rank_def split: option.splits)
  then show ?thesis unfolding find_None_iff by blast
qed

lemma sorted_paths:
  "path ` set (sort_installations xs rules) = {c \<in> set xs. \<exists>r\<in>set rules. test (regex r) c}"
proof -
  have "path ` set (sort_installations xs rules) =
      (\<lambda>c. path (snd (the (rank rules c)))) ` {c \<in> set xs. rank rules c \<noteq> None}"
    by (simp add: sort_installations_def List.map_filter_def image_image)
  also have "\<dots> = (\<lambda>c. c) ` {c \<in> set xs. rank rules c \<noteq> None}"
    by (rule image_cong) (auto simp: rank_path)
  also have "\<dots> = {c \<in> set xs. \<exists>r\<in>set rules. test (regex r) c}"
    by (simp add: rank_None)
  finally show ?thesis .
qed

lemma firefox_rules:
  "createPriorities env (env ''FIREFOX_PATH'') firefox_priorities =
     Inr (override_rule (env ''FIREFOX_PATH'') @
          concat (map (location_triple (home_text env)) firefox_priorities))"
  by (rule createPriorities_eq[OF firefox_names_compile])

lemma firefox_findAllInner_resolved:
  assumes "execa_command w (registry_command ''Firefox[A-Za-z ]*.app'') = Inr out"
  shows "firefox_findAllInner env w cmds =
     (Inr (sort_installations
             (add_paths w (candidate_dirs [''/Applications/Firefox.app''] out (env ''FIREFOX_PATH''))
                [''/Contents/MacOS/firefox''] [])
             (override_rule (env ''FIREFOX_PATH'') @
              concat (map (location_triple (home_text env)) firefox_priorities))),
      cmds @ [registry_command ''Firefox[A-Za-z ]*.app''])"
  unfolding firefox_findAllInner_def Let_def firefox_getPreferredPath_def
    findLaunchRegisteredApps_resolved[OF assms] firefox_rules
  by simp

lemma firefox_findAllInner_rejected:
  assumes "execa_command w (registry_command ''Firefox[A-Za-z ]*.app'') = Inl e"
  shows "firefox_findAllInner env w cmds = (Inl e, cmds @ [registry_command ''Firefox[A-Za-z ]*.app''])"
  unfolding firefox_findAllInner_def Let_def firefox_getPreferredPath_def
    findLaunchRegisteredApps_rejected[OF assms]
  by simp

lemma findAll_fresh_pair:
  "foundAll st = None \<Longrightarrow> inner w (invoked st) = (p, c) \<Longrightarrow>
   fst (findAll inner w st) = p \<and> invoked (snd (findAll inner w st)) = c"
  by (simp add: findAll_def)

section \<open>The memoized scan\<close>

lemma findAll_cached: "foundAll st = Some p \<Longrightarrow> findAll inner w st = (p, st)"
  by (simp add: findAll_def)

lemma findAll_fresh:
  "foundAll st = None \<Longrightarrow> fst (findAll inner w st) = fst (inner w (invoked st))"
  by (simp add: findAll_def case_prod_beta)

lemma findAll_sets_field:
  "foundAll (snd (findAll inner w st)) = Some (fst (findAll inner w st))"
  by (simp add: findAll_def split: option.splits prod.splits)

lemma findAll_calls_cached:
  "foundAll st = Some p \<Longrightarrow> findAll_calls inner ws st = (replicate (length ws) p, st)"
  by (induction ws) (simp_all add: findAll_cached)

lemma findLaunchRegisteredApps_invoked:
  "snd (findLaunchRegisteredApps w preferred pattern defaultPaths sfxs cmds) =
     cmds @ [registry_command pattern]"
  by (simp add: findLaunchRegisteredApps_def Let_def split: sum.splits)

lemma firefox_findAllInner_invoked:
  "snd (firefox_findAllInner env w cmds) = cmds @ [registry_command ''Firefox[A-Za-z ]*.app'']"
proof -
  obtain r c where *:
    "findLaunchRegisteredApps w (firefox_getPreferredPath env) ''Firefox[A-Za-z ]*.app''
       [''/Applications/Firefox.app''] [''/Contents/MacOS/firefox''] cmds = (r, c)"
    by (cases "findLaunchRegisteredApps w (firefox_getPreferredPath env)
       ''Firefox[A-Za-z ]*.app'' [''/Applications/Firefox.app''] [''/Contents/MacOS/firefox''] cmds")
  have "c = cmds @ [registry_command ''Firefox[A-Za-z ]*.app'']"
    using findLaunchRegisteredApps_invoked[of w "firefox_getPreferredPath env"
        "''Firefox[A-Za-z ]*.app''" "[''/Applications/Firefox.app'']"
        "[''/Contents/MacOS/firefox'']" cmds] *
    by simp
  then show ?thesis
    unfolding firefox_findAllInner_def Let_def * by (simp split: sum.splits)
qed

text \<open>
  Claim C1. For every finder (every \<open>findAllInner\<close>), in every run of calls of
  \<open>findAll\<close>, whatever the collaborators answer at each call, every call returns the
  promise of the first call, and the state after the run, the commands run included,
  is the state after the first call: the scan runs at most once. \<open>findAll\<close> is a
  synchronous method, so calls that are concurrent for their callers are still a
  sequence of calls. For the Firefox finder, a run on a new finder leaves exactly one
  command run.
\<close>

theorem findAll_scans_at_most_once:
  "findAll_calls inner (w # ws) st =
     (replicate (Suc (length ws)) (fst (findAll inner w st)), snd (findAll inner w st))
   \<and> invoked (snd (findAll_calls (firefox_findAllInner env) (w # ws) new_finder)) =
       [registry_command ''Firefox[A-Za-z ]*.app'']"
proof
  obtain p st' where *: "findAll inner w st = (p, st')"
    by (cases "findAll inner w st")
  have "foundAll st' = Some p"
    using findAll_sets_field[of inner w st] * by simp
  then show "findAll_calls inner (w # ws) st =
     (replicate (Suc (length ws)) (fst (findAll inner w st)), snd (findAll inner w st))"
    using * by (simp add: findAll_calls_cached)
next
  let ?inner = "firefox_findAllInner env"
  obtain p st' where *: "findAll ?inner w new_finder = (p, st')"
    by (cases "findAll ?inner w new_finder")
  have f: "foundAll st' = Some p"
    using findAll_sets_field[of ?inner w new_finder] * by simp
  have "invoked st' = snd (?inner w [])"
    using * by (auto simp: findAll_def new_finder_def split: prod.splits)
  then have "invoked st' = [registry_command ''Firefox[A-Za-z ]*.app'']"
    by (simp add: firefox_findAllInner_invoked)
  then show "invoked (snd (findAll_calls ?inner (w # ws) new_finder)) =
       [registry_command ''Firefox[A-Za-z ]*.app'']"
    using * f by (simp add: findAll_calls_cached)
qed

text \<open>
  Three calls on a new Firefox finder: the command succeeds at the first call and fails
  at the second; all three calls return the result of the first, and one command ran.
\<close>

theorem findAll_scans_at_most_once_witness:
  "findAll_calls (firefox_findAllInner Map.empty) [recovered_world, failing_world, bare_world]
     new_finder =
   (replicate 3 (Inr [\<lparr>path = ''/Applications/Firefox.app/Contents/MacOS/firefox'',
                        exe_quality = Stable\<rparr>]),
    \<lparr>foundAll = Some (Inr [\<lparr>path = ''/Applications/Firefox.app/Contents/MacOS/firefox'',
                        exe_quality = Stable\<rparr>]),
     invoked = [registry_command ''Firefox[A-Za-z ]*.app'']\<rparr>)"
proof -
  have 1: "findAll (firefox_findAllInner Map.empty) recovered_world new_finder =
    (Inr [\<lparr>path = ''/Applications/Firefox.app/Contents/MacOS/firefox'', exe_quality = Stable\<rparr>],
     \<lparr>foundAll = Some (Inr [\<lparr>path = ''/Applications/Firefox.app/Contents/MacOS/firefox'',
                        exe_quality = Stable\<rparr>]),
      invoked = [registry_command ''Firefox[A-Za-z ]*.app'']\<rparr>)"
    by code_simp
  show ?thesis
    using findAll_scans_at_most_once[of "firefox_findAllInner Map.empty" recovered_world
        "[failing_world, bare_world]" new_finder Map.empty]
    unfolding 1 by (simp add: numeral_3_eq_3)
qed

text \<open>
  Claim C4, as the spec states it, fails: a finder whose scan failed keeps the failure.
  On a new Firefox finder the first \<open>findAll\<close> fails with the command; a second call,
  made when the command would succeed and a Firefox is installed, returns the same
  failure and runs no command, where a new finder finds the browser.
\<close>

theorem findAll_retry_counterexample:
  "fst (findAll (firefox_findAllInner Map.empty) failing_world new_finder) =
     Inl (CommandFailed ''exit 1'')
   \<and> fst (findAll (firefox_findAllInner Map.empty) recovered_world
            (snd (findAll (firefox_findAllInner Map.empty) failing_world new_finder))) =
       Inl (CommandFailed ''exit 1'')
   \<and> length (invoked (snd (findAll (firefox_findAllInner Map.empty) recovered_world
            (snd (findAll (firefox_findAllInner Map.empty) failing_world new_finder))))) = 1
   \<and> fst (findAll (firefox_findAllInner Map.empty) recovered_world new_finder) =
       Inr [\<lparr>path = ''/Applications/Firefox.app/Contents/MacOS/firefox'',
              exe_quality = Stable\<rparr>]"
  by code_simp

text \<open>
  Claim C4, amended. If a call of \<open>findAll\<close> returns a failure, every later call on the
  same finder returns that failure and leaves the state as it is, the commands run
  included: the failure is memoized like a result, and no new scan is made.
\<close>

theorem findAll_failure_stays_cached:
  "fst (findAll inner w1 st) = Inl e \<Longrightarrow>
     findAll inner w2 (snd (findAll inner w1 st)) = (Inl e, snd (findAll inner w1 st))"
  using findAll_sets_field[of inner w1 st] by (simp add: findAll_cached)

lemma failing_world_fails:
  "fst (findAll (firefox_findAllInner Map.empty) failing_world new_finder) =
     Inl (CommandFailed ''exit 1'')"
  by (simp add: findAll_def firefox_findAllInner_def findLaunchRegisteredApps_def
      new_finder_def failing_world_def Let_def)

theorem findAll_failure_stays_cached_witness:
  "findAll (firefox_findAllInner Map.empty) recovered_world
      (snd (findAll (firefox_findAllInner Map.empty) failing_world new_finder)) =
     (Inl (CommandFailed ''exit 1''),
      snd (findAll (firefox_findAllInner Map.empty) failing_world new_finder))"
  using findAll_failure_stays_cached[of "firefox_findAllInner Map.empty" failing_world
      new_finder "CommandFailed ''exit 1''" recovered_world] failing_world_fails
  by simp

text \<open>
  Claim C7, as the spec states it, fails. The registry command is a pipeline that a
  shell runs, the dump of \<open>lsregister\<close> read by \<open>awk\<close>, and the status of a pipeline is
  that of its last program. When \<open>lsregister\<close> is missing (status 127), or stops with
  an error (status 1), and prints nothing, \<open>awk\<close> reads an empty input and exits with
  status 0: \<open>execa.command\<close> resolves to the empty output, and on a host without
  Firefox \<open>findAll\<close> resolves to the empty list.
\<close>

theorem registry_failure_counterexample:
  "exit_status missing_program = 127
   \<and> execa_command (shell_world missing_program awk_silent (\<lambda>p. False))
        (registry_command ''Firefox[A-Za-z ]*.app'') = Inr []
   \<and> fst (findAll (firefox_findAllInner Map.empty)
            (shell_world missing_program awk_silent (\<lambda>p. False)) new_finder) = Inr []
   \<and> exit_status crashed_program = 1
   \<and> fst (findAll (firefox_findAllInner Map.empty)
            (shell_world crashed_program awk_silent (\<lambda>p. False)) new_finder) = Inr []"
  by code_simp

text \<open>
  Claim C7, amended. On a finder that has not scanned yet: if \<open>execa.command\<close> rejects
  the registry command, \<open>findLaunchRegisteredApps\<close> rejects with the same failure,
  having run that one command, and so does \<open>findAll\<close> of the Firefox finder. If
  \<open>findAll\<close> resolves to a list, the command did resolve, it is the one command that
  was run, and the paths of the list are exactly the accessible candidates (a default
  path, a line of the output or the override, joined with the suffix) that some
  priority rule matches: an empty list means that the command resolved and that there
  is no such candidate. That a candidate no rule matches is left out is \<open>sort\<close> as the
  spec gives it.
\<close>

theorem command_rejection_propagates:
  assumes "foundAll st = None"
  shows "(execa_command w (registry_command pattern) = Inl e \<longrightarrow>
            findLaunchRegisteredApps w preferred pattern defaultPaths sfxs cmds =
              (Inl e, cmds @ [registry_command pattern]))
       \<and> (execa_command w (registry_command ''Firefox[A-Za-z ]*.app'') = Inl e \<longrightarrow>
            fst (findAll (firefox_findAllInner env) w st) = Inl e)
       \<and> (fst (findAll (firefox_findAllInner env) w st) = Inr found \<longrightarrow>
            (\<exists>out rules.
               execa_command w (registry_command ''Firefox[A-Za-z ]*.app'') = Inr out
             \<and> invoked (snd (findAll (firefox_findAllInner env) w st)) =
                 invoked st @ [registry_command ''Firefox[A-Za-z ]*.app'']
             \<and> createPriorities env (env ''FIREFOX_PATH'') firefox_priorities = Inr rules
             \<and> path ` set found =
                 {c \<in> set (accessible_candidates w
                             (candidate_dirs [''/Applications/Firefox.app''] out
                                (env ''FIREFOX_PATH''))
                             [''/Contents/MacOS/firefox'']).
                  \<exists>r\<in>set rules. test (regex r) c}))"
proof (intro conjI impI)
  assume "execa_command w (registry_command pattern) = Inl e"
  then show "findLaunchRegisteredApps w preferred pattern defaultPaths sfxs cmds =
              (Inl e, cmds @ [registry_command pattern])"
    by (rule findLaunchRegisteredApps_rejected)
next
  assume "execa_command w (registry_command ''Firefox[A-Za-z ]*.app'') = Inl e"
  from findAll_fresh_pair[where inner = "firefox_findAllInner env" and w = w, OF assms firefox_findAllInner_rejected[OF this, where env = env and cmds = "invoked st"]]
  show "fst (findAll (firefox_findAllInner env) w st) = Inl e" by simp
next
  assume a: "fst (findAll (firefox_findAllInner env) w st) = Inr found"
  let ?cmd = "registry_command ''Firefox[A-Za-z ]*.app''"
  let ?rules = "override_rule (env ''FIREFOX_PATH'') @
      concat (map (location_triple (home_text env)) firefox_priorities)"
  show "\<exists>out rules.
               execa_command w ?cmd = Inr out
             \<and> invoked (snd (findAll (firefox_findAllInner env) w st)) = invoked st @ [?cmd]
             \<and> createPriorities env (env ''FIREFOX_PATH'') firefox_priorities = Inr rules
             \<and> path ` set found =
                 {c \<in> set (accessible_candidates w
                             (candidate_dirs [''/Applications/Firefox.app''] out
                                (env ''FIREFOX_PATH''))
                             [''/Contents/MacOS/firefox'']).
                  \<exists>r\<in>set rules. test (regex r) c}"
  proof (cases "execa_command w ?cmd")
    case (Inl e')
    from findAll_fresh_pair[where inner = "firefox_findAllInner env" and w = w, OF assms firefox_findAllInner_rejected[OF this, where env = env and cmds = "invoked st"]] a
    show ?thesis by simp
  next
    case (Inr out)
    let ?xs = "add_paths w (candidate_dirs [''/Applications/Firefox.app''] out (env ''FIREFOX_PATH''))
                [''/Contents/MacOS/firefox''] []"
    from findAll_fresh_pair[where inner = "firefox_findAllInner env" and w = w, OF assms firefox_findAllInner_resolved[OF Inr, where env = env and cmds = "invoked st"]]
    have f: "fst (findAll (firefox_findAllInner env) w st) = Inr (sort_installations ?xs ?rules)"
      and i: "invoked (snd (findAll (firefox_findAllInner env) w st)) = invoked st @ [?cmd]"
      by simp_all
    have found: "found = sort_installations ?xs ?rules" using a f by simp
    have "path ` set found =
        {c \<in> set (accessible_candidates w
                             (candidate_dirs [''/Applications/Firefox.app''] out
                                (env ''FIREFOX_PATH''))
                             [''/Contents/MacOS/firefox'']).
                  \<exists>r\<in>set ?rules. test (regex r) c}"
      unfolding found sorted_paths set_add_paths by simp
    with Inr i firefox_rules show ?thesis by blast
  qed
qed

lemma recovered_world_found:
  "fst (findAll (firefox_findAllInner Map.empty) recovered_world new_finder) =
     Inr [\<lparr>path = ''/Applications/Firefox.app/Contents/MacOS/firefox'', exe_quality = Stable\<rparr>]"
  by code_simp

lemma failing_world_rejects:
  "execa_command failing_world (registry_command ''Firefox[A-Za-z ]*.app'') =
     Inl (CommandFailed ''exit 1'')"
  by (simp add: failing_world_def)

theorem command_rejection_propagates_witness:
  "findLaunchRegisteredApps failing_world None ''Firefox[A-Za-z ]*.app''
          [''/Applications/Firefox.app''] [''/Contents/MacOS/firefox''] [] =
     (Inl (CommandFailed ''exit 1''), [registry_command ''Firefox[A-Za-z ]*.app''])
   \<and> fst (findAll (firefox_findAllInner Map.empty) failing_world new_finder) =
       Inl (CommandFailed ''exit 1'')
   \<and> fst (findAll (firefox_findAllInner Map.empty) recovered_world new_finder) =
       Inr [\<lparr>path = ''/Applications/Firefox.app/Contents/MacOS/firefox'', exe_quality = Stable\<rparr>]
   \<and> (\<exists>out rules.
         execa_command recovered_world (registry_command ''Firefox[A-Za-z ]*.app'') = Inr out
       \<and> invoked (snd (findAll (firefox_findAllInner Map.empty) recovered_world new_finder)) =
           [registry_command ''Firefox[A-Za-z ]*.app'']
       \<and> createPriorities Map.empty None firefox_priorities = Inr rules
       \<and> {''/Applications/Firefox.app/Contents/MacOS/firefox''} =
           {c \<in> set (accessible_candidates recovered_world
                       (candidate_dirs [''/Applications/Firefox.app''] out None)
                       [''/Contents/MacOS/firefox'']).
            \<exists>r\<in>set rules. test (regex r) c})"
  using command_rejection_propagates[of new_finder failing_world "''Firefox[A-Za-z ]*.app''"
      "CommandFailed ''exit 1''" None "[''/Applications/Firefox.app'']"
      "[''/Contents/MacOS/firefox'']" "[]" Map.empty "[]"]
    command_rejection_propagates[of new_finder recovered_world "''Firefox[A-Za-z ]*.app''"
      "CommandFailed ''exit 1''" None "[''/Applications/Firefox.app'']"
      "[''/Contents/MacOS/firefox'']" "[]" Map.empty
      "[\<lparr>path = ''/Applications/Firefox.app/Contents/MacOS/firefox'', exe_quality = Stable\<rparr>]"]
    recovered_world_found failing_world_rejects
  by (simp add: new_finder_def)

text \<open>
  Claim C9. \<open>findWhere\<close> returns the first well-known path, in declaration order, that
  satisfies the predicate and is accessible, and then leaves the finder as it is: no
  scan is started and no command is run. Only when there is none does it call
  \<open>findAll\<close>, and it returns the first element of that result that satisfies the
  predicate, or nothing (or the failure of the scan).
\<close>

theorem findWhere_fast_path:
  "findWhere wellKnownPaths inner w predicate st =
     (case find (\<lambda>t. predicate t \<and> canAccess w (path t)) wellKnownPaths of
        Some t \<Rightarrow> (Inr (Some t), st)
      | None \<Rightarrow>
          (case findAll inner w st of
             (Inl e, st') \<Rightarrow> (Inl e, st')
           | (Inr found, st') \<Rightarrow> (Inr (find predicate found), st')))"
  by (induction wellKnownPaths) simp_all

text \<open>
  With only Firefox Nightly installed, the Firefox finder answers the query for a
  Canary build from the well-known paths and stays new, though the command would fail;
  a query that no well-known path answers runs the scan and gets its failure.
\<close>

theorem findWhere_fast_path_witness:
  "findWhere firefox_wellKnownPaths (firefox_findAllInner Map.empty) nightly_world is_canary
     new_finder =
   (Inr (Some \<lparr>path = ''/Applications/Firefox Nightly.app/Contents/MacOS/firefox'',
                 exe_quality = Canary\<rparr>), new_finder)
   \<and> fst (findWhere firefox_wellKnownPaths (firefox_findAllInner Map.empty) failing_world
            (\<lambda>exe. False) new_finder) = Inl (CommandFailed ''exit 1'')"
  using findWhere_fast_path[of firefox_wellKnownPaths "firefox_findAllInner Map.empty"
      nightly_world is_canary new_finder]
    findWhere_fast_path[of firefox_wellKnownPaths "firefox_findAllInner Map.empty"
      failing_world "\<lambda>exe. False" new_finder] failing_world_fails
  by (auto simp add: firefox_wellKnownPaths_def canAccess_def nightly_world_def is_canary_def
      split: prod.splits)

section \<open>The priority rules\<close>

text \<open>
  Claim C2, as the spec states it, fails: the weight of the override rule is the
  constant 151, which a variant of weight 51 reaches with its rule for
  \<open>/Applications\<close>; and an override that is the empty string is falsy, so that no rule
  is prepended for it.
\<close>

theorem override_weight_counterexample:
  "map_sum id (map rank_of)
     (createPriorities Map.empty (Some ''/opt/firefox'') [heavy_variant]) =
     Inr [(151, Custom), (151, Stable), (51, Stable), (- 49, Stable)]
   \<and> \<not> weight heavy_variant + 100 < 151
   \<and> map_sum id (map rank_of) (createPriorities Map.empty (Some []) [heavy_variant]) =
       Inr [(151, Stable), (51, Stable), (- 49, Stable)]"
  by (simp add: createPriorities_def escaped_home_def location_rules_def RegExp_def
      heavy_variant_def rank_of_def regexChars_def syntaxChars_def backslash_def
      number_add_exact number_sub_exact)

text \<open>
  Claim C2, amended. Whenever a non-empty override string is supplied (and the
  patterns of the variants compile), \<open>createPriorities\<close> prepends exactly one rule to
  the location rules it returns without an override; the rule has quality Custom and
  the fixed weight 151, which is greater than the weight of every location rule
  exactly when every variant has a weight below 51.
\<close>

theorem override_rule_prepended:
  assumes "pref \<noteq> []" and "\<forall>p\<in>set ps. compiles (''^/Applications/.*'' @ name p)"
  shows "\<exists>r mapped. createPriorities env None ps = Inr mapped
           \<and> createPriorities env (Some pref) ps =
               Inr (\<lparr>weight = 151, quality = Custom, regex = r\<rparr> # mapped)
           \<and> ((\<forall>m\<in>set mapped. weight m < 151) \<longleftrightarrow> (\<forall>p\<in>set ps. weight p < 51))"
proof -
  let ?mapped = "concat (map (location_triple (home_text env)) ps)"
  have 1: "createPriorities env None ps = Inr ?mapped"
    using createPriorities_eq[OF assms(2), of env None] by (simp add: override_rule_def)
  have 2: "createPriorities env (Some pref) ps =
      Inr (\<lparr>weight = 151, quality = Custom, regex = literal pref\<rparr> # ?mapped)"
    using createPriorities_eq[OF assms(2), of env "Some pref"] assms(1)
    by (simp add: override_rule_def)
  have 3: "(\<forall>m\<in>set ?mapped. weight m < 151) \<longleftrightarrow> (\<forall>p\<in>set ps. weight p < 51)"
    by (auto simp: location_triple_def number_add_def number_sub_def to_double_less_iff)
  show ?thesis using 1 2 3 by blast
qed

theorem override_rule_prepended_witness:
  "\<exists>r mapped. createPriorities odd_env None firefox_priorities = Inr mapped
     \<and> createPriorities odd_env (Some ''/opt/firefox'') firefox_priorities =
         Inr (\<lparr>weight = 151, quality = Custom, regex = r\<rparr> # mapped)
     \<and> ((\<forall>m\<in>set mapped. weight m < 151) \<longleftrightarrow> (\<forall>p\<in>set firefox_priorities. weight p < 51))"
  using override_rule_prepended[of "''/opt/firefox''" firefox_priorities odd_env]
    firefox_names_compile
  by simp

text \<open>
  Claim C5, as the spec states it, fails: the pattern of the override rule has no
  anchors, so the rule matches every path that contains the override string, such as
  the executable below the override directory.
\<close>

theorem override_exact_counterexample:
  "first_rule_matches
     (createPriorities Map.empty (Some ''/opt/firefox'') firefox_priorities)
     ''/opt/firefox/Contents/MacOS/firefox''
   \<and> ''/opt/firefox/Contents/MacOS/firefox'' \<noteq> ''/opt/firefox''"
  by (simp add: createPriorities_def escaped_home_def location_rules_def RegExp_def
      firefox_priorities_def first_rule_matches_def regexChars_def syntaxChars_def
      backslash_def test_def)

text \<open>
  Claim C5, amended. When a non-empty override string is supplied, the prepended
  override rule matches a candidate path if and only if the candidate contains the
  override string as a contiguous substring.
\<close>

theorem override_rule_matches_substring:
  assumes "pref \<noteq> []" and "\<forall>p\<in>set ps. compiles (''^/Applications/.*'' @ name p)"
  shows "\<exists>r rs. createPriorities env (Some pref) ps = Inr (r # rs)
           \<and> (\<forall>c. test (regex r) c \<longleftrightarrow> sublist pref c)"
  using createPriorities_eq[OF assms(2), of env "Some pref"] assms(1)
  by (simp add: override_rule_def test_literal)

theorem override_rule_matches_substring_witness:
  "\<exists>r rs. createPriorities odd_env (Some ''/opt/fire.fox'') firefox_priorities = Inr (r # rs)
     \<and> (\<forall>c. test (regex r) c \<longleftrightarrow> sublist ''/opt/fire.fox'' c)"
  using override_rule_matches_substring[of "''/opt/fire.fox''" firefox_priorities odd_env]
    firefox_names_compile
  by simp

text \<open>
  Claim C6. For every environment and every override, \<open>createPriorities\<close> returns when
  the rule of each variant for \<open>/Applications\<close>, which depends on neither, compiles. The
  home rule of a variant matches only paths that begin with the home directory
  followed by \<open>/Applications/\<close>, and the override rule matches only paths that contain
  the override string, whatever characters the two strings are made of.
\<close>

theorem escaping_is_safe:
  assumes "\<forall>p\<in>set ps. compiles (''^/Applications/.*'' @ name p)"
  shows "\<exists>mapped. createPriorities env None ps = Inr mapped
           \<and> createPriorities env (Some []) ps = Inr mapped
           \<and> (\<forall>h i c. env ''HOME'' = Some h \<and> i < length ps
                  \<and> test (regex (mapped ! (3 * i + 1))) c \<longrightarrow> prefix (h @ ''/Applications/'') c)
           \<and> (\<forall>pref. pref \<noteq> [] \<longrightarrow>
                 (\<exists>r. createPriorities env (Some pref) ps = Inr (r # mapped)
                    \<and> (\<forall>c. test (regex r) c \<longrightarrow> sublist pref c)))"
proof -
  let ?mapped = "concat (map (location_triple (home_text env)) ps)"
  have 1: "createPriorities env None ps = Inr ?mapped"
    using createPriorities_eq[OF assms, of env None] by (simp add: override_rule_def)
  have 2: "createPriorities env (Some []) ps = Inr ?mapped"
    using createPriorities_eq[OF assms, of env "Some []"] by (simp add: override_rule_def)
  have 3: "prefix (h @ ''/Applications/'') c"
    if "env ''HOME'' = Some h" "i < length ps" "test (regex (?mapped ! (3 * i + 1))) c"
    for h i c
  proof -
    have "home_text env = h" using that(1) by (simp add: home_text_def)
    then show ?thesis using that(3) home_rule_nth[OF that(2), of "home_text env"]
      by (simp add: test_anchored)
  qed
  have 4: "\<exists>r. createPriorities env (Some pref) ps = Inr (r # ?mapped)
                    \<and> (\<forall>c. test (regex r) c \<longrightarrow> sublist pref c)" if "pref \<noteq> []" for pref
    using createPriorities_eq[OF assms, of env "Some pref"] that
    by (simp add: override_rule_def test_literal)
  show ?thesis using 1 2 3 4 by blast
qed

theorem escaping_is_safe_witness:
  "\<exists>mapped. createPriorities odd_env None firefox_priorities = Inr mapped
     \<and> createPriorities odd_env (Some []) firefox_priorities = Inr mapped
     \<and> (\<forall>h i c. odd_env ''HOME'' = Some h \<and> i < length firefox_priorities
            \<and> test (regex (mapped ! (3 * i + 1))) c \<longrightarrow> prefix (h @ ''/Applications/'') c)
     \<and> (\<forall>pref. pref \<noteq> [] \<longrightarrow>
           (\<exists>r. createPriorities odd_env (Some pref) firefox_priorities = Inr (r # mapped)
              \<and> (\<forall>c. test (regex r) c \<longrightarrow> sublist pref c)))"
  using escaping_is_safe[of firefox_priorities odd_env] firefox_names_compile
  by simp

text \<open>
  Claim C10. When \<open>HOME\<close> is unset, \<open>createPriorities\<close> returns when the rule of each
  variant for \<open>/Applications\<close> compiles: the result is the optional override rule (at most
  one) followed by three location rules per variant, in variant order, of weights
  \<open>weight + 100\<close>, \<open>weight\<close>, \<open>weight - 100\<close> and the variant's quality. The pattern of
  the home rule is the anchored literal text \<open>undefined/Applications/\<close> followed by
  \<open>.*\<close> and the name, and it matches only paths that begin with that text.
\<close>

theorem home_unset_is_total:
  assumes "env ''HOME'' = None" and "\<forall>p\<in>set ps. compiles (''^/Applications/.*'' @ name p)"
  shows "\<exists>mapped. createPriorities env preferred ps = Inr (override_rule preferred @ mapped)
           \<and> length (override_rule preferred) \<le> 1
           \<and> length mapped = 3 * length ps
           \<and> map rank_of mapped = concat (map variant_ranks ps)
           \<and> (\<forall>i<length ps. regex (mapped ! (3 * i + 1)) =
                  Bol # literal ''undefined/Applications/'' @ name_tail (name (ps ! i)))
           \<and> (\<forall>i<length ps. \<forall>c. test (regex (mapped ! (3 * i + 1))) c \<longrightarrow>
                  prefix ''undefined/Applications/'' c)"
proof -
  let ?mapped = "concat (map (location_triple (home_text env)) ps)"
  have h: "home_text env = ''undefined''" using assms(1) by (simp add: home_text_def)
  have 1: "createPriorities env preferred ps = Inr (override_rule preferred @ ?mapped)"
    by (rule createPriorities_eq[OF assms(2)])
  have 2: "length (override_rule preferred) \<le> 1"
    by (simp add: override_rule_def split: option.splits)
  have 3: "length ?mapped = 3 * length ps"
    by (rule length_concat_triples) (simp add: length_location_triple)
  have 4: "map rank_of ?mapped = concat (map variant_ranks ps)"
    by (rule rank_of_triples)
  have 5: "regex (?mapped ! (3 * i + 1)) =
       Bol # literal ''undefined/Applications/'' @ name_tail (name (ps ! i))"
    if "i < length ps" for i
    using home_rule_nth[OF that, of "home_text env"] by (simp add: h)
  have 6: "prefix ''undefined/Applications/'' c"
    if "i < length ps" "test (regex (?mapped ! (3 * i + 1))) c" for i c
    using that(2) unfolding 5[OF that(1)] test_anchored by simp
  show ?thesis using 1 2 3 4 5 6 by blast
qed

theorem home_unset_is_total_witness:
  "\<exists>mapped. createPriorities Map.empty (Some ''/opt/firefox'') firefox_priorities =
               Inr (override_rule (Some ''/opt/firefox'') @ mapped)
     \<and> length (override_rule (Some ''/opt/firefox'')) \<le> 1
     \<and> length mapped = 3 * length firefox_priorities
     \<and> map rank_of mapped = concat (map variant_ranks firefox_priorities)
     \<and> (\<forall>i<length firefox_priorities. regex (mapped ! (3 * i + 1)) =
            Bol # literal ''undefined/Applications/'' @ name_tail (name (firefox_priorities ! i)))
     \<and> (\<forall>i<length firefox_priorities. \<forall>c. test (regex (mapped ! (3 * i + 1))) c \<longrightarrow>
            prefix ''undefined/Applications/'' c)"
  using home_unset_is_total[of Map.empty firefox_priorities "Some ''/opt/firefox''"]
    firefox_names_compile
  by simp

section \<open>Location precedence\<close>




















section \<open>The disambiguation marker\<close>

lemma pathSuffixRe_eq:
  "pathSuffixRe = literal '' (0x'' @ [Plus (OneOf hexClass), One (Lit (CHR '')''))]"
  by (simp add: pathSuffixRe_def hexClass_def)

lemma star_class:
  "x \<notin> set H \<Longrightarrow>
   match_here [Star (OneOf H), One (Lit x)] b inp =
     (case dropWhile (\<lambda>c. c \<in> set H) inp of
        [] \<Rightarrow> None
      | d # r \<Rightarrow> if d = x then Some r else None)"
proof (induction inp arbitrary: b)
  case Nil
  then show ?case by simp
next
  case (Cons c cs)
  then show ?case by (auto split: list.splits option.splits)
qed

lemma plus_class:
  "x \<notin> set H \<Longrightarrow>
   match_here [Plus (OneOf H), One (Lit x)] b inp =
     (case inp of
        [] \<Rightarrow> None
      | c # cs \<Rightarrow>
          if c \<in> set H then
            (case dropWhile (\<lambda>c. c \<in> set H) cs of
               [] \<Rightarrow> None
             | d # r \<Rightarrow> if d = x then Some r else None)
          else None)"
  by (cases inp) (simp_all add: star_class)

lemma paren_not_hex: "CHR '')'' \<notin> set hexClass"
  by (simp add: hexClass_def)

lemma match_marker_sound:
  assumes "match_here pathSuffixRe b inp = Some r"
  shows "\<exists>ds. ds \<noteq> [] \<and> set ds \<subseteq> set hexClass \<and> inp = marker ds @ r"
proof -
  from assms obtain rest where inp: "inp = '' (0x'' @ rest"
    and m: "match_here [Plus (OneOf hexClass), One (Lit (CHR '')''))] False rest = Some r"
    unfolding pathSuffixRe_eq match_here_literal
    by (auto simp: prefix_def split: if_splits)
  from m obtain c cs where rest: "rest = c # cs" and c: "c \<in> set hexClass"
    and d: "dropWhile (\<lambda>c. c \<in> set hexClass) cs = CHR '')'' # r"
    unfolding plus_class[OF paren_not_hex]
    by (auto split: list.splits if_splits)
  let ?ds = "c # takeWhile (\<lambda>c. c \<in> set hexClass) cs"
  have "cs = takeWhile (\<lambda>c. c \<in> set hexClass) cs @ CHR '')'' # r"
    using takeWhile_dropWhile_id[of "\<lambda>c. c \<in> set hexClass" cs] d by simp
  then have "inp = marker ?ds @ r"
    unfolding inp rest marker_def by simp
  moreover have "set ?ds \<subseteq> set hexClass"
    using c by (auto dest: set_takeWhileD)
  ultimately show ?thesis by blast
qed

lemma match_marker:
  assumes "ds \<noteq> []" "set ds \<subseteq> set hexClass"
  shows "match_here pathSuffixRe b (marker ds @ r) = Some r"
proof -
  from assms obtain c cs where ds: "ds = c # cs" by (cases ds) auto
  have "dropWhile (\<lambda>c. c \<in> set hexClass) (cs @ CHR '')'' # r) = CHR '')'' # r"
    using assms(2) paren_not_hex unfolding ds
    by (induction cs) auto
  then have "match_here [Plus (OneOf hexClass), One (Lit (CHR '')''))] False (ds @ '')'' @ r) = Some r"
    unfolding plus_class[OF paren_not_hex] ds using assms(2) ds by simp
  then show ?thesis
    unfolding pathSuffixRe_eq match_here_literal marker_def by simp
qed


lemma space_not_hex: "CHR '' '' \<notin> set hexClass"
  by (simp add: hexClass_def)

text \<open>A string tests positive exactly when a marker occurs in it.\<close>

lemma test_from_marker:
  "test_from pathSuffixRe b s \<longleftrightarrow>
     (\<exists>pre ds r. ds \<noteq> [] \<and> set ds \<subseteq> set hexClass \<and> s = pre @ marker ds @ r)"
proof (induction s arbitrary: b)
  case Nil
  show ?case
  proof
    assume "test_from pathSuffixRe b []"
    then obtain r where "match_here pathSuffixRe b [] = Some r" by auto
    from match_marker_sound[OF this] show "\<exists>pre ds r. ds \<noteq> [] \<and> set ds \<subseteq> set hexClass \<and> [] = pre @ marker ds @ r"
      by (simp add: marker_def)
  next
    assume "\<exists>pre ds r. ds \<noteq> [] \<and> set ds \<subseteq> set hexClass \<and> [] = pre @ marker ds @ r"
    then show "test_from pathSuffixRe b []" by (simp add: marker_def)
  qed
next
  case (Cons c cs)
  show ?case
  proof
    assume t: "test_from pathSuffixRe b (c # cs)"
    show "\<exists>pre ds r. ds \<noteq> [] \<and> set ds \<subseteq> set hexClass \<and> c # cs = pre @ marker ds @ r"
    proof (cases "match_here pathSuffixRe b (c # cs)")
      case None
      with t have "test_from pathSuffixRe False cs" by simp
      then obtain pre ds r where "ds \<noteq> []" "set ds \<subseteq> set hexClass" "cs = pre @ marker ds @ r"
        using Cons.IH by blast
      then have "ds \<noteq> [] \<and> set ds \<subseteq> set hexClass \<and> c # cs = (c # pre) @ marker ds @ r" by simp
      then show ?thesis by blast
    next
      case (Some r)
      from match_marker_sound[OF this] obtain ds where
        "ds \<noteq> []" "set ds \<subseteq> set hexClass" "c # cs = marker ds @ r" by blast
      then have "ds \<noteq> [] \<and> set ds \<subseteq> set hexClass \<and> c # cs = [] @ marker ds @ r" by simp
      then show ?thesis by blast
    qed
  next
    assume "\<exists>pre ds r. ds \<noteq> [] \<and> set ds \<subseteq> set hexClass \<and> c # cs = pre @ marker ds @ r"
    then obtain pre ds r where *: "ds \<noteq> []" "set ds \<subseteq> set hexClass" "c # cs = pre @ marker ds @ r"
      by blast
    show "test_from pathSuffixRe b (c # cs)"
    proof (cases pre)
      case Nil
      then have "match_here pathSuffixRe b (c # cs) = Some r"
        using match_marker[OF *(1,2), of b r] *(3) by simp
      then show ?thesis by simp
    next
      case (Cons d pre')
      then have "cs = pre' @ marker ds @ r" using *(3) by simp
      then have "test_from pathSuffixRe False cs" using Cons.IH *(1,2) by blast
      then show ?thesis by simp
    qed
  qed
qed

lemma test_infix:
  assumes "\<not> test pathSuffixRe (a @ s @ c)"
  shows "\<not> test_from pathSuffixRe b s"
proof
  assume "test_from pathSuffixRe b s"
  then obtain pre ds r where "ds \<noteq> []" "set ds \<subseteq> set hexClass" "s = pre @ marker ds @ r"
    unfolding test_from_marker by blast
  then have "ds \<noteq> [] \<and> set ds \<subseteq> set hexClass \<and> a @ s @ c = (a @ pre) @ marker ds @ (r @ c)"
    by simp
  then have "test_from pathSuffixRe True (a @ s @ c)"
    unfolding test_from_marker by blast
  with assms show False by (simp add: test_def)
qed

text \<open>A match that starts in front of a trailing marker ends in front of it.\<close>

lemma no_straddle:
  assumes "match_here pathSuffixRe b (u @ marker hex) = Some r" "u \<noteq> []"
  shows "\<exists>ds us. ds \<noteq> [] \<and> set ds \<subseteq> set hexClass \<and> u = marker ds @ us"
proof -
  from match_marker_sound[OF assms(1)] obtain ds where
    ds: "ds \<noteq> []" "set ds \<subseteq> set hexClass" and eq: "u @ marker hex = marker ds @ r" by blast
  from eq obtain us where "u = marker ds @ us \<or> (u @ us = marker ds \<and> marker hex = us @ r)"
    by (auto simp: append_eq_append_conv2)
  then consider us where "u = marker ds @ us"
    | us where "us \<noteq> []" "u @ us = marker ds" "marker hex = us @ r"
    by (cases "us = []") auto
  then show ?thesis
  proof cases
    case 1
    then show ?thesis using ds by blast
  next
    case 2
    from 2(1,3) have "hd us = CHR '' ''" by (cases us) (auto simp: marker_def)
    with 2(1) have "CHR '' '' \<in> set us" by (cases us) auto
    moreover from assms(2) 2(2) obtain u' where "u = CHR '' '' # u'" "u' @ us = ''(0x'' @ ds @ '')''"
      by (cases u) (auto simp: marker_def)
    then have "set us \<subseteq> set (''(0x'' @ ds @ '')'')" by (metis set_append sup_ge2)
    ultimately have "CHR '' '' \<in> set ds" by auto
    with ds(2) space_not_hex show ?thesis by blast
  qed
qed

lemma replace_trailing_marker:
  assumes "hex \<noteq> []" "set hex \<subseteq> set hexClass"
  shows "\<not> test_from pathSuffixRe b q \<Longrightarrow> replace_from pathSuffixRe b (q @ marker hex) = q"
proof (induction q arbitrary: b)
  case Nil
  have "match_here pathSuffixRe b (marker hex @ []) = Some []"
    by (rule match_marker[OF assms])
  then show ?case by (cases "marker hex") (simp_all add: marker_def)
next
  case (Cons c cs)
  have none: "match_here pathSuffixRe b ((c # cs) @ marker hex) = None"
  proof (rule ccontr)
    assume "match_here pathSuffixRe b ((c # cs) @ marker hex) \<noteq> None"
    then obtain r where "match_here pathSuffixRe b ((c # cs) @ marker hex) = Some r" by auto
    from no_straddle[OF this] obtain ds us where
      "ds \<noteq> []" "set ds \<subseteq> set hexClass" "c # cs = marker ds @ us" by blast
    then have "match_here pathSuffixRe b (c # cs) = Some us"
      using match_marker[of ds b us] by simp
    with Cons.prems show False by simp
  qed
  have "\<not> test_from pathSuffixRe False cs" using Cons.prems by (simp split: if_splits)
  from Cons.IH[OF this] none show ?case by simp
qed

lemma replace_no_marker:
  "\<not> test_from pathSuffixRe b s \<Longrightarrow> replace_from pathSuffixRe b s = s"
  by (induction s arbitrary: b) (auto split: option.splits if_splits)

subsection \<open>Trimming\<close>

lemma not_space_paren: "\<not> is_space (CHR '')'')"
  by (simp add: is_space_def)

lemma trim_nonempty_dropWhile:
  assumes "trim p \<noteq> []"
  shows "dropWhile is_space p \<noteq> []"
proof
  assume a: "dropWhile is_space p = []"
  have "trim p = []" unfolding trim_def a by simp
  with assms show False by simp
qed

lemma trim_append_marker:
  assumes "trim p \<noteq> []"
  shows "trim (p @ marker hex) = dropWhile is_space p @ marker hex"
proof -
  from trim_nonempty_dropWhile[OF assms] obtain x where x: "x \<in> set p" "\<not> is_space x"
    by (metis dropWhile_eq_Nil_conv)
  have 1: "dropWhile is_space (p @ marker hex) = dropWhile is_space p @ marker hex"
    using x by (simp add: dropWhile_append1)
  have "rev (dropWhile is_space p @ marker hex) = CHR '')'' # rev ('' (0x'' @ hex) @ rev (dropWhile is_space p)"
    by (simp add: marker_def)
  then have "dropWhile is_space (rev (dropWhile is_space p @ marker hex)) = rev (dropWhile is_space p @ marker hex)"
    using not_space_paren by simp
  then show ?thesis unfolding trim_def 1 by simp
qed

lemma trim_dropWhile: "trim (dropWhile is_space p) = trim p"
  by (simp add: trim_def)

lemma trim_decompose: "\<exists>a c. p = a @ trim p @ c"
proof -
  let ?q = "dropWhile is_space p"
  have "p = takeWhile is_space p @ ?q" by simp
  moreover have "?q = trim p @ rev (takeWhile is_space (rev ?q))"
    unfolding trim_def
    by (metis rev_append rev_rev_ident takeWhile_dropWhile_id)
  ultimately show ?thesis by metis
qed

lemma dropWhile_decompose: "\<exists>a. p = a @ dropWhile is_space p @ []"
  by (metis append_Nil2 takeWhile_dropWhile_id)


subsection \<open>One line of the output\<close>

lemma strip_marked:
  assumes "hex \<noteq> []" "set hex \<subseteq> set hexClass" "trim p \<noteq> []" "\<not> test pathSuffixRe p"
  shows "replace_empty (trim (p @ marker hex)) pathSuffixRe = dropWhile is_space p"
proof -
  obtain a where "p = a @ dropWhile is_space p @ []" using dropWhile_decompose by blast
  then have "\<not> test_from pathSuffixRe True (dropWhile is_space p)"
    using test_infix[of a "dropWhile is_space p" "[]" True] assms(4) by simp
  then have "replace_from pathSuffixRe True (dropWhile is_space p @ marker hex) =
      dropWhile is_space p"
    by (rule replace_trailing_marker[OF assms(1,2)])
  then show ?thesis
    by (simp only: replace_empty_def trim_append_marker[OF assms(3)])
qed

lemma strip_plain:
  assumes "\<not> test pathSuffixRe p"
  shows "replace_empty (trim p) pathSuffixRe = trim p"
proof -
  obtain a c where "p = a @ trim p @ c" using trim_decompose by blast
  then have "\<not> test_from pathSuffixRe True (trim p)"
    using test_infix[of a "trim p" c True] assms by simp
  from replace_no_marker[OF this] show ?thesis
    unfolding replace_empty_def .
qed

subsection \<open>The candidate list\<close>

lemma add_suffixes_trim:
  assumes "trim x = trim y"
  shows "add_suffixes w x sfxs acc = add_suffixes w y sfxs acc"
proof (induction sfxs arbitrary: acc)
  case Nil
  show ?case by simp
next
  case (Cons s sfxs)
  show ?case
    by (simp only: add_suffixes.simps Let_def assms Cons.IH)
qed

lemma add_paths_append:
  "add_paths w (xs @ ys) sfxs acc = add_paths w ys sfxs (add_paths w xs sfxs acc)"
proof (induction xs arbitrary: acc)
  case Nil
  show ?case by simp
next
  case (Cons x xs)
  show ?case by (simp only: append_Cons add_paths.simps Cons.IH)
qed

lemma add_paths_swap:
  assumes "trim x = trim y"
  shows "add_paths w (A @ x # B) sfxs acc = add_paths w (A @ y # B) sfxs acc"
  by (simp only: add_paths_append add_paths.simps add_suffixes_trim[OF assms])

lemma add_suffixes_access:
  assumes "fs_access w1 = fs_access w2"
  shows "add_suffixes w1 x sfxs acc = add_suffixes w2 x sfxs acc"
proof (induction sfxs arbitrary: acc)
  case Nil
  show ?case by simp
next
  case (Cons s sfxs)
  show ?case
    by (simp only: add_suffixes.simps Let_def assms Cons.IH)
qed

lemma add_paths_access:
  assumes "fs_access w1 = fs_access w2"
  shows "add_paths w1 xs sfxs acc = add_paths w2 xs sfxs acc"
proof (induction xs arbitrary: acc)
  case Nil
  show ?case by simp
next
  case (Cons x xs)
  show ?case by (simp only: add_paths.simps Cons.IH add_suffixes_access[OF assms])
qed

lemma registry_paths_lines:
  assumes "split (CHR 0x0A) out = ls1 @ [l] @ ls2"
    and "replace_empty (trim l) pathSuffixRe = x" "x \<noteq> []"
  shows "registry_paths defaultPaths out =
     filter (\<lambda>l. l \<noteq> []) (defaultPaths @ map (\<lambda>l. replace_empty (trim l) pathSuffixRe) ls1)
     @ x # filter (\<lambda>l. l \<noteq> []) (map (\<lambda>l. replace_empty (trim l) pathSuffixRe) ls2)"
  unfolding registry_paths_def assms(1) using assms(2,3) by simp

lemma dropWhile_trim: "dropWhile is_space (trim p) = trim p"
proof (cases "trim p")
  case Nil
  then show ?thesis by simp
next
  case (Cons x xs)
  let ?q = "dropWhile is_space p"
  have "?q = trim p @ rev (takeWhile is_space (rev ?q))"
    unfolding trim_def
    by (metis rev_append rev_rev_ident takeWhile_dropWhile_id)
  then have "?q = x # xs @ rev (takeWhile is_space (rev ?q))"
    using Cons by simp
  then have "?q \<noteq> []" "hd ?q = x" by (metis list.distinct(1), metis list.sel(1))
  then have "\<not> is_space x" using hd_dropWhile[of is_space p] by auto
  then show ?thesis using Cons by simp
qed

lemma trim_trim: "trim (trim p) = trim p"
proof -
  have "dropWhile is_space (rev (trim p)) = rev (trim p)"
    by (simp add: trim_def)
  then have "rev (dropWhile is_space (rev (dropWhile is_space (trim p)))) = trim p"
    unfolding dropWhile_trim by simp
  then show ?thesis unfolding trim_def[of "trim p"] .
qed

text \<open>
  Claim C8, as the spec states it, fails. The pattern has no \<open>i\<close> flag and its class
  is \<open>[a-f0-9]\<close>: a marker with capital hexadecimal digits is not removed, and the
  installation that the same line without the marker yields is not found. The pattern
  has no \<open>g\<close> flag and no anchor: in a line with an earlier marker the earlier one is
  removed and the trailing one stays. The line is trimmed before the marker is looked
  for: a line that is nothing but a marker loses the space the marker begins with, and
  is kept as a path, where the empty line is dropped.
\<close>

theorem marker_counterexample:
  "fst (findLaunchRegisteredApps
          (registry_world ''/Users/me/Applications/Firefox.app (0x1A2B)''
             ''/Users/me/Applications/Firefox.app/Contents/MacOS/firefox'')
          None ''Firefox[A-Za-z ]*.app'' [''/Applications/Firefox.app'']
          [''/Contents/MacOS/firefox''] []) = Inr []
   \<and> fst (findLaunchRegisteredApps
          (registry_world ''/Users/me/Applications/Firefox.app''
             ''/Users/me/Applications/Firefox.app/Contents/MacOS/firefox'')
          None ''Firefox[A-Za-z ]*.app'' [''/Applications/Firefox.app'']
          [''/Contents/MacOS/firefox''] []) =
       Inr [''/Users/me/Applications/Firefox.app/Contents/MacOS/firefox'']
   \<and> fst (findLaunchRegisteredApps
          (registry_world ''/Volumes/Disk (0x1)/Firefox.app (0x2)''
             ''/Volumes/Disk/Firefox.app/Contents/MacOS/firefox'')
          None ''Firefox[A-Za-z ]*.app'' [''/Applications/Firefox.app'']
          [''/Contents/MacOS/firefox''] []) = Inr []
   \<and> fst (findLaunchRegisteredApps
          (registry_world ''/Volumes/Disk (0x1)/Firefox.app''
             ''/Volumes/Disk/Firefox.app/Contents/MacOS/firefox'')
          None ''Firefox[A-Za-z ]*.app'' [''/Applications/Firefox.app'']
          [''/Contents/MacOS/firefox''] []) =
       Inr [''/Volumes/Disk/Firefox.app/Contents/MacOS/firefox'']
   \<and> fst (findLaunchRegisteredApps
          (registry_world '' (0x1a)'' ''(0x1a)/Contents/MacOS/firefox'')
          None ''Firefox[A-Za-z ]*.app'' [''/Applications/Firefox.app'']
          [''/Contents/MacOS/firefox''] []) = Inr [''(0x1a)/Contents/MacOS/firefox'']
   \<and> fst (findLaunchRegisteredApps
          (registry_world [] ''(0x1a)/Contents/MacOS/firefox'')
          None ''Firefox[A-Za-z ]*.app'' [''/Applications/Firefox.app'']
          [''/Contents/MacOS/firefox''] []) = Inr []"
  by code_simp

text \<open>
  Claim C8, amended. A registry output line that consists of a path, not blank and
  without a marker of its own, followed by a marker of the form space, open
  parenthesis, \<open>0x\<close>, one or more of the digits \<open>0-9\<close> and \<open>a-f\<close>, close parenthesis,
  is treated as the same line without the marker. The marker is removed before the
  path joins the list of candidate directories: the entry of the line is the path
  without the marker, and the lists of the two runs differ in nothing but the blanks
  at the end of that entry, which the loop trims. \<open>findLaunchRegisteredApps\<close> returns
  the same result, the candidates and their order, for both, and the result contains
  every accessible executable of the path; all other lines, the default paths, the
  override, the suffixes and the accessible paths being the same.
\<close>

theorem marker_is_stripped:
  assumes hex: "hex \<noteq> []" "set hex \<subseteq> set ''abcdef0123456789''"
    and p: "trim p \<noteq> []" "\<not> test pathSuffixRe p"
    and out1: "execa_command w1 (registry_command pattern) = Inr out1"
      "split (CHR 0x0A) out1 = ls1 @ [p @ '' (0x'' @ hex @ '')''] @ ls2"
    and out2: "execa_command w2 (registry_command pattern) = Inr out2"
      "split (CHR 0x0A) out2 = ls1 @ [p] @ ls2"
    and fs: "fs_access w1 = fs_access w2"
  shows "replace_empty (trim (p @ '' (0x'' @ hex @ '')'')) pathSuffixRe = dropWhile is_space p
     \<and> (\<exists>A B. candidate_dirs defaultPaths out1 preferred = A @ dropWhile is_space p # B
              \<and> candidate_dirs defaultPaths out2 preferred = A @ trim p # B)
     \<and> trim (dropWhile is_space p) = trim p
     \<and> findLaunchRegisteredApps w1 preferred pattern defaultPaths sfxs cmds =
         findLaunchRegisteredApps w2 preferred pattern defaultPaths sfxs cmds
     \<and> (\<exists>found. fst (findLaunchRegisteredApps w1 preferred pattern defaultPaths sfxs cmds) =
                  Inr found
            \<and> (\<forall>sfx\<in>set sfxs. fs_access w1 (posix_join (trim p) sfx) \<longrightarrow>
                   posix_join (trim p) sfx \<in> set found))"
proof -
  define A where
    "A = filter (\<lambda>l. l \<noteq> [])
           (defaultPaths @ map (\<lambda>l. replace_empty (trim l) pathSuffixRe) ls1)"
  define B where
    "B = filter (\<lambda>l. l \<noteq> []) (map (\<lambda>l. replace_empty (trim l) pathSuffixRe) ls2)"
  define q where "q = dropWhile is_space p"
  define extra where
    "extra = (case preferred of None \<Rightarrow> [] | Some pref \<Rightarrow> if pref = [] then [] else [pref])"
  have hex': "set hex \<subseteq> set hexClass" using hex(2) by (simp add: hexClass_def)
  have s1: "replace_empty (trim (p @ '' (0x'' @ hex @ '')'')) pathSuffixRe = q"
    using strip_marked[OF hex(1) hex' p] by (simp add: marker_def q_def)
  have s2: "replace_empty (trim p) pathSuffixRe = trim p" by (rule strip_plain[OF p(2)])
  have q: "q \<noteq> []" unfolding q_def by (rule trim_nonempty_dropWhile[OF p(1)])
  have r1: "registry_paths defaultPaths out1 = A @ q # B"
    unfolding A_def B_def by (rule registry_paths_lines[OF out1(2) s1 q])
  have r2: "registry_paths defaultPaths out2 = A @ trim p # B"
    unfolding A_def B_def by (rule registry_paths_lines[OF out2(2) s2 p(1)])
  have c1: "candidate_dirs defaultPaths out1 preferred = A @ q # (B @ extra)"
    unfolding candidate_dirs_def r1 extra_def by simp
  have c2: "candidate_dirs defaultPaths out2 preferred = A @ trim p # (B @ extra)"
    unfolding candidate_dirs_def r2 extra_def by simp
  have t: "trim q = trim (trim p)"
    unfolding q_def trim_trim by (simp add: trim_def)
  have t': "trim q = trim p" unfolding t by (rule trim_trim)
  have "add_paths w1 (A @ q # (B @ extra)) sfxs [] = add_paths w1 (A @ trim p # (B @ extra)) sfxs []"
    by (rule add_paths_swap[OF t])
  also have "\<dots> = add_paths w2 (A @ trim p # (B @ extra)) sfxs []"
    by (rule add_paths_access[OF fs])
  finally have eq: "add_paths w1 (A @ q # (B @ extra)) sfxs [] =
      add_paths w2 (A @ trim p # (B @ extra)) sfxs []" .
  have same: "findLaunchRegisteredApps w1 preferred pattern defaultPaths sfxs cmds =
         findLaunchRegisteredApps w2 preferred pattern defaultPaths sfxs cmds"
    unfolding findLaunchRegisteredApps_resolved[OF out1(1)]
      findLaunchRegisteredApps_resolved[OF out2(1)] c1 c2 eq
    by (simp only:)
  have res: "fst (findLaunchRegisteredApps w1 preferred pattern defaultPaths sfxs cmds) =
      Inr (add_paths w1 (A @ q # (B @ extra)) sfxs [])"
    unfolding findLaunchRegisteredApps_resolved[OF out1(1)] c1 by simp
  have mem: "posix_join (trim p) sfx \<in> set (add_paths w1 (A @ q # (B @ extra)) sfxs [])"
    if "sfx \<in> set sfxs" "fs_access w1 (posix_join (trim p) sfx)" for sfx
    unfolding set_add_paths accessible_candidates_def using that by (auto simp: t')
  have dirs: "\<exists>A B. candidate_dirs defaultPaths out1 preferred = A @ dropWhile is_space p # B
              \<and> candidate_dirs defaultPaths out2 preferred = A @ trim p # B"
    using c1 c2 unfolding q_def by blast
  have found: "\<exists>found. fst (findLaunchRegisteredApps w1 preferred pattern defaultPaths sfxs cmds) =
                  Inr found
            \<and> (\<forall>sfx\<in>set sfxs. fs_access w1 (posix_join (trim p) sfx) \<longrightarrow>
                   posix_join (trim p) sfx \<in> set found)"
    using res mem by blast
  from s1 dirs t' same found show ?thesis unfolding q_def by (intro conjI)
qed

lemma home_line_plain:
  "trim '' /Users/me/Applications/Firefox.app'' \<noteq> []"
  "\<not> test pathSuffixRe '' /Users/me/Applications/Firefox.app''"
  by (simp_all add: trim_def is_space_def test_def pathSuffixRe_def)

lemma home_line_split:
  "split (CHR 0x0A)
      ('' /Users/me/Applications/Firefox.app (0x1a2b3c)'' @ [CHR 0x0A] @
       '' /Volumes/Disk/Firefox Nightly.app'' @ [CHR 0x0A]) =
     [] @ ['' /Users/me/Applications/Firefox.app'' @ '' (0x'' @ ''1a2b3c'' @ '')''] @
     ['' /Volumes/Disk/Firefox Nightly.app'', []]"
  "split (CHR 0x0A)
      ('' /Users/me/Applications/Firefox.app'' @ [CHR 0x0A] @
       '' /Volumes/Disk/Firefox Nightly.app'' @ [CHR 0x0A]) =
     [] @ ['' /Users/me/Applications/Firefox.app''] @ ['' /Volumes/Disk/Firefox Nightly.app'', []]"
  by code_simp+

lemma home_line_joined:
  "posix_join (trim '' /Users/me/Applications/Firefox.app'') ''/Contents/MacOS/firefox'' =
     ''/Users/me/Applications/Firefox.app/Contents/MacOS/firefox''"
  by code_simp

theorem marker_is_stripped_witness:
  "replace_empty (trim '' /Users/me/Applications/Firefox.app (0x1a2b3c)'') pathSuffixRe =
     ''/Users/me/Applications/Firefox.app''
   \<and> findLaunchRegisteredApps
       (registry_world
          ('' /Users/me/Applications/Firefox.app (0x1a2b3c)'' @ [CHR 0x0A] @
           '' /Volumes/Disk/Firefox Nightly.app'' @ [CHR 0x0A])
          ''/Users/me/Applications/Firefox.app/Contents/MacOS/firefox'')
       None ''Firefox[A-Za-z ]*.app'' [''/Applications/Firefox.app'']
       [''/Contents/MacOS/firefox''] [] =
     findLaunchRegisteredApps
       (registry_world
          ('' /Users/me/Applications/Firefox.app'' @ [CHR 0x0A] @
           '' /Volumes/Disk/Firefox Nightly.app'' @ [CHR 0x0A])
          ''/Users/me/Applications/Firefox.app/Contents/MacOS/firefox'')
       None ''Firefox[A-Za-z ]*.app'' [''/Applications/Firefox.app'']
       [''/Contents/MacOS/firefox''] []
   \<and> (\<exists>found.
         fst (findLaunchRegisteredApps
               (registry_world
                  ('' /Users/me/Applications/Firefox.app (0x1a2b3c)'' @ [CHR 0x0A] @
                   '' /Volumes/Disk/Firefox Nightly.app'' @ [CHR 0x0A])
                  ''/Users/me/Applications/Firefox.app/Contents/MacOS/firefox'')
               None ''Firefox[A-Za-z ]*.app'' [''/Applications/Firefox.app'']
               [''/Contents/MacOS/firefox''] []) = Inr found
       \<and> ''/Users/me/Applications/Firefox.app/Contents/MacOS/firefox'' \<in> set found)"
  using marker_is_stripped[of "''1a2b3c''" "'' /Users/me/Applications/Firefox.app''"
      "registry_world
          ('' /Users/me/Applications/Firefox.app (0x1a2b3c)'' @ [CHR 0x0A] @
           '' /Volumes/Disk/Firefox Nightly.app'' @ [CHR 0x0A])
          ''/Users/me/Applications/Firefox.app/Contents/MacOS/firefox''"
      "''Firefox[A-Za-z ]*.app''"
      "'' /Users/me/Applications/Firefox.app (0x1a2b3c)'' @ [CHR 0x0A] @
           '' /Volumes/Disk/Firefox Nightly.app'' @ [CHR 0x0A]"
      "[]" "['' /Volumes/Disk/Firefox Nightly.app'', []]"
      "registry_world
          ('' /Users/me/Applications/Firefox.app'' @ [CHR 0x0A] @
           '' /Volumes/Disk/Firefox Nightly.app'' @ [CHR 0x0A])
          ''/Users/me/Applications/Firefox.app/Contents/MacOS/firefox''"
      "'' /Users/me/Applications/Firefox.app'' @ [CHR 0x0A] @
           '' /Volumes/Disk/Firefox Nightly.app'' @ [CHR 0x0A]"
      "[''/Applications/Firefox.app'']" None "[''/Contents/MacOS/firefox'']" "[]",
      OF _ _ home_line_plain _ home_line_split(1) _ home_line_split(2)]
    home_line_joined
  by (auto simp add: registry_world_def is_space_def)

end
